theory Spec2Isabelle
  imports Complex_Main
begin

section \<open>Labelled arrays\<close>

text \<open>
  The fitter of \<^verbatim>\<open>episimlab/fit/llsq.py\<close> works on labelled multi-dimensional arrays
  (xarray's \<^verbatim>\<open>DataArray\<close>). An array has an ordered list of named axes; an axis either
  carries an index of labels (a coordinate) or has only a size. The cells are addressed by
  a list of positions, one per axis, in the order of the axes. Cell values are idealised
  as real numbers: rounding of floating-point arithmetic is not modelled.
\<close>

datatype label = LStr string | LInt int

datatype index = Labels "label list" | Range nat

fun index_size :: "index \<Rightarrow> nat" where
  "index_size (Labels ls) = length ls"
| "index_size (Range n) = n"

record darray =
  axes :: "(string \<times> index) list"
  vals :: "nat list \<Rightarrow> real"

definition dims :: "darray \<Rightarrow> string list" where
  "dims a = map fst (axes a)"

definition shape :: "darray \<Rightarrow> nat list" where
  "shape a = map (\<lambda>ax. index_size (snd ax)) (axes a)"

text \<open>The exceptions that the fitter and the libraries under it can raise.\<close>

datatype error =
    IndexError
  | AttributeError
  | KeyError
  | ValueError
  | AssertionError
  | TypeError
  | LibraryError string

fun dim_pos :: "string \<Rightarrow> string list \<Rightarrow> nat option" where
  "dim_pos d [] = None"
| "dim_pos d (x # xs) = (if x = d then Some 0 else map_option Suc (dim_pos d xs))"

definition insert_at :: "nat \<Rightarrow> 'a \<Rightarrow> 'a list \<Rightarrow> 'a list" where
  "insert_at k j xs = take k xs @ j # drop k xs"

definition remove_at :: "nat \<Rightarrow> 'a list \<Rightarrow> 'a list" where
  "remove_at k xs = take k xs @ drop (Suc k) xs"

text \<open>The positions at which a label occurs in an index, in increasing order.\<close>

definition positions :: "label list \<Rightarrow> label \<Rightarrow> nat list" where
  "positions ls l = filter (\<lambda>i. ls ! i = l) [0..<length ls]"

text \<open>
  Selection of one position along axis \<open>k\<close>: the axis disappears from the result.
\<close>

definition isel :: "nat \<Rightarrow> nat \<Rightarrow> darray \<Rightarrow> darray" where
  "isel k i a = \<lparr>axes = remove_at k (axes a), vals = (\<lambda>js. vals a (insert_at k i js))\<rparr>"

text \<open>
  Selection of several positions along axis \<open>k\<close> (what a label that occurs more than once
  in a non-unique index selects): the axis stays, with the selected entries.
\<close>

definition isel_many :: "nat \<Rightarrow> nat list \<Rightarrow> darray \<Rightarrow> darray" where
  "isel_many k ps a =
     \<lparr>axes = (axes a)[k := (fst (axes a ! k),
                (case snd (axes a ! k) of
                   Labels ls \<Rightarrow> Labels (map (\<lambda>p. ls ! p) ps)
                 | Range n \<Rightarrow> Range (length ps)))],
      vals = (\<lambda>js. vals a (js[k := ps ! (js ! k)]))\<rparr>"

text \<open>
  \<^verbatim>\<open>a.loc[dict(d=l)]\<close>: label-based selection along the axis named \<open>d\<close>. The lookup
  raises \<^verbatim>\<open>KeyError\<close> when \<open>d\<close> is no axis of the array, when the axis has no index to
  look the label up in, and when the label is absent from the index. A label found once
  yields an integer position and the axis is dropped; a label found several times keeps
  the axis.
\<close>

definition loc :: "string \<Rightarrow> label \<Rightarrow> darray \<Rightarrow> error + darray" where
  "loc d l a =
     (case dim_pos d (dims a) of
        None \<Rightarrow> Inl KeyError
      | Some k \<Rightarrow>
          (case snd (axes a ! k) of
             Range n \<Rightarrow> Inl KeyError
           | Labels ls \<Rightarrow>
               (case positions ls l of
                  [] \<Rightarrow> Inl KeyError
                | [i] \<Rightarrow> Inr (isel k i a)
                | ps \<Rightarrow> Inr (isel_many k ps a))))"

text \<open>Summation along axis \<open>k\<close>: the axis disappears from the result.\<close>

definition sum_axis :: "nat \<Rightarrow> darray \<Rightarrow> darray" where
  "sum_axis k a =
     \<lparr>axes = remove_at k (axes a),
      vals = (\<lambda>js. sum_list (map (\<lambda>j. vals a (insert_at k j js))
                                 [0..<index_size (snd (axes a ! k))]))\<rparr>"

definition sum_dim :: "string \<Rightarrow> darray \<Rightarrow> error + darray" where
  "sum_dim d a =
     (case dim_pos d (dims a) of
        None \<Rightarrow> Inl ValueError
      | Some k \<Rightarrow> Inr (sum_axis k a))"

text \<open>
  \<^verbatim>\<open>a.sum(dim=[d1, d2, ...])\<close>: every named axis is summed away; a name that is no axis
  of the array is a \<^verbatim>\<open>ValueError\<close>. Over the reals the order of the summations does
  not matter, so the axes are reduced one after the other.
\<close>

fun sum_dims :: "string list \<Rightarrow> darray \<Rightarrow> error + darray" where
  "sum_dims [] a = Inr a"
| "sum_dims (d # ds) a =
     (case sum_dim d a of Inl e \<Rightarrow> Inl e | Inr b \<Rightarrow> sum_dims ds b)"

subsection \<open>Arithmetic with alignment\<close>

fun index_of :: "label \<Rightarrow> label list \<Rightarrow> nat" where
  "index_of l [] = 0"
| "index_of l (x # xs) = (if x = l then 0 else Suc (index_of l xs))"

text \<open>
  Alignment of one axis shared by the two operands of a binary operation (xarray's
  default, the inner join). The result is the joined index and, for every entry of it,
  the position of that entry in the left and in the right operand. Equal indexes are
  kept as they are; different indexes are joined on their common labels, in the order of
  the left operand, which needs unique labels on both sides; an axis without labels
  cannot be joined with an axis of another size.
\<close>

fun join_index :: "index \<Rightarrow> index \<Rightarrow> error + (index \<times> nat list \<times> nat list)" where
  "join_index (Labels a) (Labels b) =
     (if a = b then Inr (Labels a, [0..<length a], [0..<length a])
      else if distinct a \<and> distinct b then
        (let j = filter (\<lambda>l. l \<in> set b) a
         in Inr (Labels j, map (\<lambda>l. index_of l a) j, map (\<lambda>l. index_of l b) j))
      else Inl ValueError)"
| "join_index (Labels a) (Range n) =
     (if length a = n then Inr (Labels a, [0..<n], [0..<n]) else Inl ValueError)"
| "join_index (Range n) (Labels b) =
     (if n = length b then Inr (Labels b, [0..<n], [0..<n]) else Inl ValueError)"
| "join_index (Range n) (Range m) =
     (if n = m then Inr (Range n, [0..<n], [0..<n]) else Inl ValueError)"

text \<open>
  Every axis of the left operand, joined with the axis of the same name of the right
  operand when there is one.
\<close>

fun join_axes :: "(string \<times> index) list \<Rightarrow> (string \<times> index) list \<Rightarrow>
    error + ((string \<times> index) \<times> nat list \<times> nat list) list" where
  "join_axes [] bx = Inr []"
| "join_axes ((d, ix) # ax) bx =
     (case (case map_of bx d of
              None \<Rightarrow> Inr (ix, [0..<index_size ix], [])
            | Some ixb \<Rightarrow> join_index ix ixb) of
        Inl e \<Rightarrow> Inl e
      | Inr (j, ls, rs) \<Rightarrow>
          (case join_axes ax bx of
             Inl e \<Rightarrow> Inl e
           | Inr r \<Rightarrow> Inr (((d, j), ls, rs) # r)))"

text \<open>
  \<^verbatim>\<open>a - b\<close> on labelled arrays: shared axes are aligned, the axes of the result are
  those of \<open>a\<close> followed by the axes that only \<open>b\<close> has, and every cell is the
  difference of the cells of \<open>a\<close> and \<open>b\<close> that it is aligned with.
\<close>

definition darray_sub :: "darray \<Rightarrow> darray \<Rightarrow> error + darray" where
  "darray_sub a b =
     (case join_axes (axes a) (axes b) of
        Inl e \<Rightarrow> Inl e
      | Inr js \<Rightarrow>
          (let extra = filter (\<lambda>ax. fst ax \<notin> set (dims a)) (axes b);
               n = length (axes a)
           in Inr \<lparr>axes = map fst js @ extra,
                   vals = (\<lambda>ps.
                     vals a (map (\<lambda>p. fst (snd (js ! p)) ! (ps ! p)) [0..<n])
                     - vals b (map (\<lambda>d. case dim_pos d (dims a) of
                                           Some p \<Rightarrow> snd (snd (js ! p)) ! (ps ! p)
                                         | None \<Rightarrow>
                                             (case dim_pos d (map fst extra) of
                                                Some q \<Rightarrow> ps ! (n + q)
                                              | None \<Rightarrow> 0))
                                   (dims b)))\<rparr>))"

section \<open>The least-squares fitter\<close>

text \<open>
  Values of keyword arguments and input variables, the time-step schedule (a
  \<^verbatim>\<open>DatetimeIndex\<close>, either given by its time stamps or by the arguments of
  \<^verbatim>\<open>pd.date_range\<close>), and a model: the processes of \<^verbatim>\<open>xs.Model\<close> by name.
\<close>

datatype pyval = PStr string | PFloat real | PInt int

datatype clock = Date_range string string string | Timestamps "int list"

type_synonym model = "(string \<times> string) list"

type_synonym dataset = "string \<Rightarrow> darray option"

text \<open>The result object of the optimizer.\<close>

record solution =
  sol_x :: "real list"
  sol_cost :: real
  sol_status :: int

text \<open>
  The attributes of class \<^verbatim>\<open>LeastSqFitter\<close>; \<open>soln\<close> is the attribute that
  \<^verbatim>\<open>fit\<close> sets, absent until then.
\<close>

record LeastSqFitter =
  data :: darray
  guess :: real
  model :: model
  dep_var :: string
  step_clock :: clock
  verbosity :: int
  ls_kwargs :: "(string \<times> pyval) list"
  config_fp :: string
  soln :: "solution option"

text \<open>
  The simulation framework is an external collaborator: \<^verbatim>\<open>xs.create_setup\<close> builds
  an input dataset (of type \<open>'i\<close>) from its arguments, and the \<^verbatim>\<open>xsimlab.run\<close>
  accessor of an input dataset runs a model on it. Both are deterministic functions of
  their arguments that can raise.
\<close>

record setup_args =
  sa_model :: model
  sa_clocks :: "(string \<times> clock) list"
  sa_input_vars :: "(string \<times> pyval) list"
  sa_output_vars :: "(string \<times> string) list"

record 'i xsimlab =
  create_setup :: "setup_args \<Rightarrow> error + 'i"
  run :: "'i \<Rightarrow> model \<Rightarrow> (string \<times> bool) list \<Rightarrow> error + dataset"

text \<open>
  The call of \<^verbatim>\<open>scipy.optimize.least_squares\<close> that \<^verbatim>\<open>fit\<close> makes: the keyword
  arguments written in the source, and the ones taken from \<^verbatim>\<open>ls_kwargs\<close>. The
  objective is called by the optimizer as \<^verbatim>\<open>fun(x, *args)\<close>; it runs simulations, so
  it transforms the list of the simulation runs launched so far.
\<close>

record 'i ls_call =
  ls_fun :: "real list \<Rightarrow> darray \<Rightarrow> 'i list \<Rightarrow> (error + darray) \<times> 'i list"
  ls_x0 :: real
  ls_xtol :: real
  ls_verbose :: int
  ls_args :: "darray list"
  ls_extra :: "(string \<times> pyval) list"

text \<open>
  What the program does to the world outside the fitter object: the simulation runs it
  launched (by their input datasets, oldest first) and the optimizer calls it made.
\<close>

record 'i world =
  sim_runs :: "'i list"
  opt_calls :: "'i ls_call list"

text \<open>
  \<^verbatim>\<open>os.path.join\<close> on POSIX, for two components.
\<close>

definition path_join :: "string \<Rightarrow> string \<Rightarrow> string" where
  "path_join a b =
     (if b \<noteq> [] \<and> hd b = CHR ''/'' then b
      else if a = [] \<or> last a = CHR ''/'' then a @ b
      else a @ ''/'' @ b)"

text \<open>
  The constructor that \<^verbatim>\<open>attr.s\<close> generates: it stores its arguments, with the
  defaults of the class for the ones left out. \<open>home\<close> is the constant
  \<^verbatim>\<open>EPISIMLAB_HOME\<close> of the package.
\<close>

definition init :: "string \<Rightarrow> darray \<Rightarrow> real \<Rightarrow> model \<Rightarrow> string option \<Rightarrow> clock option \<Rightarrow>
    int option \<Rightarrow> (string \<times> pyval) list option \<Rightarrow> string option \<Rightarrow> 'i world \<Rightarrow>
    LeastSqFitter \<times> 'i world" where
  "init home data_arg guess_arg model_arg dep_var_arg step_clock_arg verbosity_arg
        ls_kwargs_arg config_fp_arg w =
     (\<lparr>data = data_arg,
       guess = guess_arg,
       model = model_arg,
       dep_var = (case dep_var_arg of None \<Rightarrow> ''beta'' | Some v \<Rightarrow> v),
       step_clock = (case step_clock_arg of
                       None \<Rightarrow> Date_range ''2/1/2020'' ''4/1/2020'' ''12H''
                     | Some v \<Rightarrow> v),
       verbosity = (case verbosity_arg of None \<Rightarrow> 0 | Some v \<Rightarrow> v),
       ls_kwargs = (case ls_kwargs_arg of None \<Rightarrow> [] | Some v \<Rightarrow> v),
       config_fp = (case config_fp_arg of
                      None \<Rightarrow> path_join (path_join (path_join home ''tests'') ''config'')
                               ''example_v1.yaml''
                    | Some v \<Rightarrow> v),
       soln = None\<rparr>, w)"

text \<open>
  \<^verbatim>\<open>get_in_ds(self, dep_vars)\<close>, the second definition of that name in the class (it
  replaces the first): \<^verbatim>\<open>dep_vars[0]\<close> raises on an empty vector.
\<close>

definition get_in_ds :: "'i xsimlab \<Rightarrow> LeastSqFitter \<Rightarrow> real list \<Rightarrow> error + 'i" where
  "get_in_ds xs self dep_vars =
     (case dep_vars of
        [] \<Rightarrow> Inl IndexError
      | beta # rest \<Rightarrow>
          create_setup xs
            \<lparr>sa_model = model self,
             sa_clocks = [(''step'', step_clock self)],
             sa_input_vars = [(''read_config__config_fp'', PStr (config_fp self)),
                              (''foi__beta'', PFloat beta)],
             sa_output_vars = [(''apply_counts_delta__counts'', ''step'')]\<rparr>)"

definition get_out_ds :: "'i xsimlab \<Rightarrow> LeastSqFitter \<Rightarrow> real list \<Rightarrow> 'i list \<Rightarrow>
    (error + dataset) \<times> 'i list" where
  "get_out_ds xs self dep_vars runs =
     (case get_in_ds xs self dep_vars of
        Inl e \<Rightarrow> (Inl e, runs)
      | Inr in_ds \<Rightarrow>
          (run xs in_ds (model self) [(''mask_and_scale'', False)], runs @ [in_ds]))"

text \<open>
  Lines 82 to 88 of \<^verbatim>\<open>calc_residual\<close>: the counts of the \<^verbatim>\<open>Ih\<close> compartment over
  time, pulled out of the output dataset, and the two assertions on the result.
\<close>

definition ih_pred :: "dataset \<Rightarrow> error + darray" where
  "ih_pred out_ds =
     (case out_ds ''apply_counts_delta__counts'' of
        None \<Rightarrow> Inl AttributeError
      | Some counts \<Rightarrow>
          (case loc ''compartment'' (LStr ''Ih'') counts of
             Inl e \<Rightarrow> Inl e
           | Inr sel \<Rightarrow>
               (case sum_dims [''age_group'', ''risk_group'', ''vertex''] sel of
                  Inl e \<Rightarrow> Inl e
                | Inr p \<Rightarrow>
                    if length (shape p) \<noteq> 1 then Inl AssertionError
                    else if ''step'' \<notin> set (dims p) then Inl AssertionError
                    else Inr p)))"

text \<open>
  \<^verbatim>\<open>calc_residual(self, dep_vars, ih_actual)\<close>. The result comes with the fitter
  object and the list of simulation runs as the call leaves them.
\<close>

definition calc_residual :: "'i xsimlab \<Rightarrow> LeastSqFitter \<Rightarrow> real list \<Rightarrow> darray \<Rightarrow> 'i list \<Rightarrow>
    (error + darray) \<times> LeastSqFitter \<times> 'i list" where
  "calc_residual xs self dep_vars ih_actual runs =
     (case get_out_ds xs self dep_vars runs of
        (Inl e, runs') \<Rightarrow> (Inl e, self, runs')
      | (Inr out_ds, runs') \<Rightarrow>
          (case ih_pred out_ds of
             Inl e \<Rightarrow> (Inl e, self, runs')
           | Inr p \<Rightarrow> (darray_sub p ih_actual, self, runs')))"

text \<open>
  \<^verbatim>\<open>fit(self)\<close>. A key of \<^verbatim>\<open>ls_kwargs\<close> that repeats a keyword written in the call
  is a \<^verbatim>\<open>TypeError\<close> of the call itself, before the optimizer is entered. The
  optimizer is external: \<open>least_squares\<close> stands for it.
\<close>

definition fit_call :: "'i xsimlab \<Rightarrow> LeastSqFitter \<Rightarrow> 'i ls_call" where
  "fit_call xs self =
     \<lparr>ls_fun = (\<lambda>x ih_actual runs.
                 case calc_residual xs self x ih_actual runs of
                   (r, self', runs') \<Rightarrow> (r, runs')),
      ls_x0 = guess self,
      ls_xtol = 1 / 10 ^ 8,
      ls_verbose = verbosity self,
      ls_args = [data self],
      ls_extra = ls_kwargs self\<rparr>"

text \<open>
  The keywords of \<^verbatim>\<open>least_squares\<close> that decide when it stops have defaults in its
  signature: the tolerances \<^verbatim>\<open>ftol\<close>, \<^verbatim>\<open>xtol\<close> and \<^verbatim>\<open>gtol\<close> (the tolerance on the
  first-order optimality) are \<^verbatim>\<open>1e-8\<close> each, and \<^verbatim>\<open>max_nfev\<close> has no value. The
  value that the optimizer works with for a keyword is the one of the call, or else the
  default.
\<close>

definition least_squares_defaults :: "(string \<times> pyval) list" where
  "least_squares_defaults =
     [(''ftol'', PFloat (1 / 10 ^ 8)), (''xtol'', PFloat (1 / 10 ^ 8)),
      (''gtol'', PFloat (1 / 10 ^ 8))]"

definition ls_keyword :: "'i ls_call \<Rightarrow> string \<Rightarrow> pyval option" where
  "ls_keyword call k =
     (case map_of ([(''x0'', PFloat (ls_x0 call)), (''xtol'', PFloat (ls_xtol call)),
                    (''verbose'', PInt (ls_verbose call))] @ ls_extra call) k of
        Some v \<Rightarrow> Some v
      | None \<Rightarrow> map_of least_squares_defaults k)"

definition fit :: "('i ls_call \<Rightarrow> 'i list \<Rightarrow> (error + solution) \<times> 'i list) \<Rightarrow> 'i xsimlab \<Rightarrow>
    LeastSqFitter \<Rightarrow> 'i world \<Rightarrow> (error + solution) \<times> LeastSqFitter \<times> 'i world" where
  "fit least_squares xs self w =
     (if list_ex (\<lambda>k. k \<in> set [''fun'', ''x0'', ''xtol'', ''verbose'', ''args''])
           (map fst (ls_kwargs self))
      then (Inl TypeError, self, w)
      else
        (case least_squares (fit_call xs self) (sim_runs w) of
           (Inl e, runs') \<Rightarrow>
             (Inl e, self,
              \<lparr>sim_runs = runs', opt_calls = opt_calls w @ [fit_call xs self]\<rparr>)
         | (Inr s, runs') \<Rightarrow>
             (Inr s, self\<lparr>soln := Some s\<rparr>,
              \<lparr>sim_runs = runs', opt_calls = opt_calls w @ [fit_call xs self]\<rparr>)))"

section \<open>Notions used to state the properties\<close>

text \<open>
  The cell of an array addressed by axis names: \<open>m\<close> gives the position along every
  axis. The size of the axis of a given name (0 when there is no such axis).
\<close>

definition cell :: "darray \<Rightarrow> (string \<Rightarrow> nat) \<Rightarrow> real" where
  "cell a m = vals a (map m (dims a))"

definition dim_size :: "darray \<Rightarrow> string \<Rightarrow> nat" where
  "dim_size a d = (case map_of (axes a) d of None \<Rightarrow> 0 | Some ix \<Rightarrow> index_size ix)"

text \<open>
  The cell of a counts array at time step \<open>t\<close>, compartment \<open>i\<close>, age group \<open>a\<close>, risk
  group \<open>g\<close> and vertex \<open>v\<close> (all given as positions), whatever the order of its axes.
\<close>

definition counts_cell :: "darray \<Rightarrow> nat \<Rightarrow> nat \<Rightarrow> nat \<Rightarrow> nat \<Rightarrow> nat \<Rightarrow> real" where
  "counts_cell c t i a g v =
     cell c ((\<lambda>d. 0)(''step'' := t, ''compartment'' := i, ''age_group'' := a,
                       ''risk_group'' := g, ''vertex'' := v))"


text \<open>
  The time axis of an observed series (second argument) is on the time steps of the
  simulation (first argument): the two indexes are the same, or both have unique labels
  and every observed label is a label of the simulation, or one of the axes has no labels
  and the sizes are equal.
\<close>

fun on_time_steps :: "index \<Rightarrow> index \<Rightarrow> bool" where
  "on_time_steps (Labels a) (Labels b) =
     (a = b \<or> (distinct a \<and> distinct b \<and> set b \<subseteq> set a))"
| "on_time_steps (Labels a) (Range n) = (length a = n)"
| "on_time_steps (Range n) ix = (n = index_size ix)"

section \<open>A small configuration\<close>

text \<open>
  The model \<^verbatim>\<open>slow_seir\<close> of \<^verbatim>\<open>models/toy.py\<close>, and a simulation that stands for
  the external framework in concrete evaluations: three time steps, two vertices, two age
  groups, one risk group and the compartments \<^verbatim>\<open>S\<close> and \<^verbatim>\<open>Ih\<close>, with counts
  proportional to the transmission coefficient. At the coefficient 0.5 the \<^verbatim>\<open>Ih\<close>
  counts add up to 110, 140 and 120.
\<close>

definition slow_seir :: model where
  "slow_seir =
     [(''init_epi'', ''InitDefaultEpis''),
      (''init_counts'', ''InitDefaultCounts''),
      (''init_coords'', ''InitDefaultCoords''),
      (''init_phi'', ''InitPhi''),
      (''init_phi_grp_mapping'', ''InitPhiGrpMapping''),
      (''foi'', ''BruteForceFOI''),
      (''seir'', ''BruteForceSEIR''),
      (''apply_counts_delta'', ''ApplyCountsDelta'')]"

definition ex_counts :: "real \<Rightarrow> darray" where
  "ex_counts beta =
     \<lparr>axes = [(''step'', Labels [LInt 0, LInt 1, LInt 2]),
              (''vertex'', Labels [LInt 0, LInt 1]),
              (''age_group'', Labels [LStr ''0-4'', LStr ''5-17'']),
              (''risk_group'', Labels [LStr ''low'']),
              (''compartment'', Labels [LStr ''S'', LStr ''Ih''])],
      vals = (\<lambda>js.
        if js ! 4 = 1
        then 2 * beta * ([20, 30, 25] ! (js ! 0)
                         + (if js ! 1 = 0 \<and> js ! 2 = 0 then [30, 20, 20] ! (js ! 0) else 0))
        else 1000)\<rparr>"

definition ex_out :: "real \<Rightarrow> dataset" where
  "ex_out beta = (\<lambda>name. if name = ''apply_counts_delta__counts''
                          then Some (ex_counts beta) else None)"

definition ex_xs :: "setup_args xsimlab" where
  "ex_xs =
     \<lparr>create_setup = (\<lambda>args. Inr args),
      run = (\<lambda>in_ds m decoding.
               case map_of (sa_input_vars in_ds) ''foi__beta'' of
                 Some (PFloat b) \<Rightarrow> Inr (ex_out b)
               | Some (PStr s) \<Rightarrow> Inl (LibraryError ''foi__beta'')
               | Some (PInt n) \<Rightarrow> Inl (LibraryError ''foi__beta'')
               | None \<Rightarrow> Inl (LibraryError ''foi__beta''))\<rparr>"

text \<open>The input dataset that the fitter below builds for the coefficient \<open>beta\<close>.\<close>

definition ex_in_ds :: "real \<Rightarrow> setup_args" where
  "ex_in_ds beta =
     \<lparr>sa_model = slow_seir,
      sa_clocks = [(''step'', Timestamps [0, 1, 2])],
      sa_input_vars = [(''read_config__config_fp'', PStr ''example_v1.yaml''),
                       (''foi__beta'', PFloat beta)],
      sa_output_vars = [(''apply_counts_delta__counts'', ''step'')]\<rparr>"

text \<open>
  Simulations that return the same counts whatever their input: counts without a time
  axis, and counts whose compartment axis has no \<^verbatim>\<open>Ih\<close>.
\<close>

definition ex_xs_static :: "darray \<Rightarrow> setup_args xsimlab" where
  "ex_xs_static c =
     \<lparr>create_setup = (\<lambda>args. Inr args),
      run = (\<lambda>in_ds m decoding.
               Inr (\<lambda>name. if name = ''apply_counts_delta__counts'' then Some c else None))\<rparr>"

definition ex_counts_no_step :: darray where
  "ex_counts_no_step =
     \<lparr>axes = [(''vertex'', Labels [LInt 0, LInt 1]),
              (''age_group'', Labels [LStr ''0-4'', LStr ''5-17'']),
              (''risk_group'', Labels [LStr ''low'']),
              (''compartment'', Labels [LStr ''S'', LStr ''Ih''])],
      vals = (\<lambda>js. 1)\<rparr>"

definition ex_counts_no_ih :: darray where
  "ex_counts_no_ih =
     \<lparr>axes = [(''step'', Labels [LInt 0, LInt 1, LInt 2]),
              (''vertex'', Labels [LInt 0, LInt 1]),
              (''age_group'', Labels [LStr ''0-4'', LStr ''5-17'']),
              (''risk_group'', Labels [LStr ''low'']),
              (''compartment'', Labels [LStr ''S'', LStr ''E''])],
      vals = (\<lambda>js. 1)\<rparr>"

text \<open>Observed series: one on the time steps of the simulation, one on other time steps.\<close>

definition ex_obs :: darray where
  "ex_obs = \<lparr>axes = [(''step'', Labels [LInt 0, LInt 1, LInt 2])],
             vals = (\<lambda>js. [100, 150, 130] ! (js ! 0))\<rparr>"

definition ex_obs_long :: darray where
  "ex_obs_long = \<lparr>axes = [(''step'', Labels [LInt 0, LInt 1, LInt 5, LInt 6])],
                  vals = (\<lambda>js. [100, 150, 130, 90] ! (js ! 0))\<rparr>"

text \<open>An observed series of three time steps, none of them a time step of the simulation.\<close>

definition ex_obs_shifted :: darray where
  "ex_obs_shifted = \<lparr>axes = [(''step'', Labels [LInt 5, LInt 6, LInt 7])],
                     vals = (\<lambda>js. [100, 150, 130] ! (js ! 0))\<rparr>"

text \<open>A simulation whose every run fails.\<close>

definition ex_xs_failing :: "setup_args xsimlab" where
  "ex_xs_failing =
     \<lparr>create_setup = (\<lambda>args. Inr args),
      run = (\<lambda>in_ds m decoding. Inl (LibraryError ''run failed''))\<rparr>"

definition ex_fitter :: LeastSqFitter where
  "ex_fitter =
     \<lparr>data = ex_obs, guess = 1 / 2, model = slow_seir, dep_var = ''beta'',
      step_clock = Timestamps [0, 1, 2], verbosity = 0, ls_kwargs = [],
      config_fp = ''example_v1.yaml'', soln = None\<rparr>"

text \<open>
  An optimizer for concrete evaluations: it evaluates the objective once, at the
  starting point, and returns the starting point with half the sum of the squared
  residuals as its cost.
\<close>

definition ex_least_squares :: "'i ls_call \<Rightarrow> 'i list \<Rightarrow> (error + solution) \<times> 'i list" where
  "ex_least_squares call runs =
     (case ls_args call of
        [] \<Rightarrow> (Inl TypeError, runs)
      | obs # rest \<Rightarrow>
          (case ls_fun call [ls_x0 call] obs runs of
             (Inl e, runs') \<Rightarrow> (Inl e, runs')
           | (Inr r, runs') \<Rightarrow>
               (Inr \<lparr>sol_x = [ls_x0 call],
                     sol_cost = sum_list (map (\<lambda>k. (vals r [k])\<^sup>2)
                                  [0..<dim_size r ''step'']) / 2,
                     sol_status = 0\<rparr>, runs')))"

section \<open>Auxiliary facts\<close>

subsection \<open>Axes by name and by position\<close>

text \<open>
  With distinct axis names, removing the axis at the position of a name is removing the
  axis of that name, and inserting a position there is updating the named address.
\<close>

lemma dim_pos_Some: "dim_pos d ns = Some k \<Longrightarrow> k < length ns \<and> ns ! k = d \<and> d \<notin> set (take k ns)"
proof (induction ns arbitrary: k)
  case Nil
  then show ?case by simp
next
  case (Cons x xs)
  show ?case
  proof (cases "x = d")
    case True
    with Cons.prems show ?thesis by simp
  next
    case False
    with Cons.prems obtain k' where k': "dim_pos d xs = Some k'" "k = Suc k'"
      by auto
    from Cons.IH [OF k'(1)] False k'(2) show ?thesis by auto
  qed
qed

lemma dim_pos_None: "dim_pos d ns = None \<longleftrightarrow> d \<notin> set ns"
  by (induction ns) auto

lemma dim_pos_mem: "d \<in> set ns \<Longrightarrow> \<exists>k. dim_pos d ns = Some k"
  using dim_pos_None [of d ns] by (cases "dim_pos d ns") auto

lemma remove_at_filter:
  assumes "distinct (map fst xs)" and "dim_pos d (map fst xs) = Some k"
  shows "remove_at k xs = filter (\<lambda>ax. fst ax \<noteq> d) xs"
  using assms
proof (induction xs arbitrary: k)
  case Nil
  then show ?case by simp
next
  case (Cons x xs)
  show ?case
  proof (cases "fst x = d")
    case True
    with Cons.prems have k: "k = 0" by simp
    from Cons.prems(1) have "fst x \<notin> fst ` set xs" by simp
    with True have "\<forall>y\<in>set xs. fst y \<noteq> d" by blast
    then have "filter (\<lambda>ax. fst ax \<noteq> d) xs = xs" by (simp add: filter_id_conv)
    with True k show ?thesis by (simp add: remove_at_def)
  next
    case False
    with Cons.prems obtain k' where k': "dim_pos d (map fst xs) = Some k'" "k = Suc k'"
      by auto
    from Cons.prems(1) have "distinct (map fst xs)" by simp
    from Cons.IH [OF this k'(1)] False k'(2) show ?thesis by (simp add: remove_at_def)
  qed
qed

lemma insert_at_map:
  assumes "distinct ns" and "dim_pos d ns = Some k"
  shows "insert_at k j (map m (remove_at k ns)) = map (m(d := j)) ns"
  using assms
proof (induction ns arbitrary: k)
  case Nil
  then show ?case by simp
next
  case (Cons x xs)
  show ?case
  proof (cases "x = d")
    case True
    with Cons.prems have k: "k = 0" by simp
    from Cons.prems(1) True have "d \<notin> set xs" by auto
    then have "map (m(d := j)) xs = map m xs" by (intro map_cong) auto
    with True k show ?thesis by (simp add: insert_at_def remove_at_def)
  next
    case False
    with Cons.prems obtain k' where k': "dim_pos d xs = Some k'" "k = Suc k'"
      by auto
    from Cons.prems(1) have "distinct xs" by simp
    from Cons.IH [OF this k'(1)] False k'(2) show ?thesis
      by (simp add: insert_at_def remove_at_def)
  qed
qed

lemma axes_nth_map_of:
  assumes "distinct (map fst xs)" and "dim_pos d (map fst xs) = Some k"
  shows "map_of xs d = Some (snd (xs ! k))"
  using assms
proof (induction xs arbitrary: k)
  case Nil
  then show ?case by simp
next
  case (Cons x xs)
  show ?case
  proof (cases "fst x = d")
    case True
    with Cons.prems have "k = 0" by simp
    with True show ?thesis by (cases x) auto
  next
    case False
    with Cons.prems obtain k' where k': "dim_pos d (map fst xs) = Some k'" "k = Suc k'"
      by auto
    from Cons.prems(1) have "distinct (map fst xs)" by simp
    from Cons.IH [OF this k'(1)] False k'(2) show ?thesis by (cases x) auto
  qed
qed

lemma map_of_filter_neq: "d' \<noteq> d \<Longrightarrow> map_of (filter (\<lambda>ax. fst ax \<noteq> d) xs) d' = map_of xs d'"
  by (induction xs) auto

subsection \<open>Cells of selections and sums\<close>

lemma dims_remove_at: "map fst (remove_at k xs) = remove_at k (map fst xs)"
  by (simp add: remove_at_def take_map drop_map)

lemma dims_isel: "dims (isel k i a) = remove_at k (dims a)"
  by (simp add: dims_def isel_def dims_remove_at)

lemma dims_sum_axis: "dims (sum_axis k a) = remove_at k (dims a)"
  by (simp add: dims_def sum_axis_def dims_remove_at)

lemma cell_isel:
  assumes "distinct (dims a)" and "dim_pos d (dims a) = Some k"
  shows "cell (isel k i a) m = cell a (m(d := i))"
proof -
  have "cell (isel k i a) m = vals a (insert_at k i (map m (dims (isel k i a))))"
    by (simp add: cell_def isel_def)
  also have "\<dots> = vals a (map (m(d := i)) (dims a))"
    by (simp only: dims_isel insert_at_map [OF assms])
  finally show ?thesis by (simp add: cell_def)
qed

lemma cell_sum_axis:
  assumes "distinct (dims a)" and "dim_pos d (dims a) = Some k"
  shows "cell (sum_axis k a) m = (\<Sum>j<dim_size a d. cell a (m(d := j)))"
proof -
  have sz: "index_size (snd (axes a ! k)) = dim_size a d"
    using axes_nth_map_of [of "axes a" d k] assms by (simp add: dims_def dim_size_def)
  have "cell (sum_axis k a) m =
      sum_list (map (\<lambda>j. vals a (insert_at k j (map m (dims (sum_axis k a))))) [0..<dim_size a d])"
    by (simp add: cell_def sum_axis_def sz)
  also have "\<dots> = sum_list (map (\<lambda>j. cell a (m(d := j))) [0..<dim_size a d])"
    by (simp only: dims_sum_axis insert_at_map [OF assms] cell_def)
  also have "\<dots> = (\<Sum>j<dim_size a d. cell a (m(d := j)))"
    by (simp add: interv_sum_list_conv_sum_set_nat atLeast0LessThan)
  finally show ?thesis .
qed


lemma axes_isel:
  assumes "distinct (dims a)" and "dim_pos d (dims a) = Some k"
  shows "axes (isel k i a) = filter (\<lambda>ax. fst ax \<noteq> d) (axes a)"
  using remove_at_filter [of "axes a" d k] assms by (simp add: isel_def dims_def)

lemma axes_sum_axis:
  assumes "distinct (dims a)" and "dim_pos d (dims a) = Some k"
  shows "axes (sum_axis k a) = filter (\<lambda>ax. fst ax \<noteq> d) (axes a)"
  using remove_at_filter [of "axes a" d k] assms by (simp add: sum_axis_def dims_def)

lemma dims_filtered:
  "axes b = filter (\<lambda>ax. fst ax \<noteq> d) (axes a) \<Longrightarrow> dims b = filter (\<lambda>n. n \<noteq> d) (dims a)"
  by (simp add: dims_def filter_map comp_def)

lemma dim_size_filtered:
  "axes b = filter (\<lambda>ax. fst ax \<noteq> d) (axes a) \<Longrightarrow> d' \<noteq> d \<Longrightarrow> dim_size b d' = dim_size a d'"
  by (simp add: dim_size_def map_of_filter_neq)

subsection \<open>The extraction of the predicted series\<close>

lemma loc_unique:
  assumes "distinct (dims a)" and "map_of (axes a) d = Some (Labels ls)"
    and "positions ls l = [i]"
  shows "\<exists>k. dim_pos d (dims a) = Some k \<and> loc d l a = Inr (isel k i a)"
proof -
  from assms(2) have "d \<in> set (dims a)"
    by (auto simp: dims_def dest: map_of_SomeD intro: rev_image_eqI)
  then obtain k where k: "dim_pos d (dims a) = Some k"
    using dim_pos_mem by blast
  with assms(1) have "map_of (axes a) d = Some (snd (axes a ! k))"
    using axes_nth_map_of [of "axes a" d k] by (simp add: dims_def)
  with assms(2) have "snd (axes a ! k) = Labels ls" by simp
  with k assms(3) show ?thesis by (simp add: loc_def)
qed

lemma sum_dim_present:
  assumes "d \<in> set (dims a)"
  shows "\<exists>k. dim_pos d (dims a) = Some k \<and> sum_dim d a = Inr (sum_axis k a)"
proof -
  from assms obtain k where "dim_pos d (dims a) = Some k"
    using dim_pos_mem by blast
  then show ?thesis by (simp add: sum_dim_def)
qed

lemma singleton_list: "distinct xs \<Longrightarrow> set xs = {x} \<Longrightarrow> xs = [x]"
proof (cases xs)
  case Nil
  assume "set xs = {x}"
  with Nil show ?thesis by simp
next
  case (Cons y ys)
  assume d: "distinct xs" and s: "set xs = {x}"
  from s Cons have "y = x" by auto
  moreover from d s Cons have "ys = []" by (cases ys) auto
  ultimately show ?thesis using Cons by simp
qed

lemma ih_pred_counts:
  assumes c: "out_ds ''apply_counts_delta__counts'' = Some c"
    and dist: "distinct (dims c)"
    and names: "set (dims c) = {''step'', ''compartment'', ''age_group'', ''risk_group'', ''vertex''}"
    and comp: "map_of (axes c) ''compartment'' = Some (Labels ls)"
    and ih: "positions ls (LStr ''Ih'') = [i]"
  shows "\<exists>p ix. ih_pred out_ds = Inr p \<and> axes p = [(''step'', ix)] \<and>
           map_of (axes c) ''step'' = Some ix \<and>
           (\<forall>t. vals p [t] =
              (\<Sum>v<dim_size c ''vertex''. \<Sum>g<dim_size c ''risk_group''.
                 \<Sum>a<dim_size c ''age_group''. counts_cell c t i a g v))"
proof -
  \<comment> \<open>selection of the compartment\<close>
  from loc_unique [OF dist comp ih] obtain k0
    where k0: "dim_pos ''compartment'' (dims c) = Some k0"
      and loc: "loc ''compartment'' (LStr ''Ih'') c = Inr (isel k0 i c)"
    by blast
  define s0 where "s0 = isel k0 i c"
  have ax0: "axes s0 = filter (\<lambda>ax. fst ax \<noteq> ''compartment'') (axes c)"
    unfolding s0_def by (rule axes_isel [OF dist k0])
  have d0: "dims s0 = filter (\<lambda>n. n \<noteq> ''compartment'') (dims c)"
    by (rule dims_filtered [OF ax0])
  have dist0: "distinct (dims s0)" using dist d0 by simp
  have set0: "set (dims s0) = {''step'', ''age_group'', ''risk_group'', ''vertex''}"
    using names d0 by auto
  \<comment> \<open>the three summations\<close>
  from set0 have "''age_group'' \<in> set (dims s0)" by simp
  from sum_dim_present [OF this] obtain k1
    where k1: "dim_pos ''age_group'' (dims s0) = Some k1"
      and sum1: "sum_dim ''age_group'' s0 = Inr (sum_axis k1 s0)"
    by blast
  define s1 where "s1 = sum_axis k1 s0"
  have ax1: "axes s1 = filter (\<lambda>ax. fst ax \<noteq> ''age_group'') (axes s0)"
    unfolding s1_def by (rule axes_sum_axis [OF dist0 k1])
  have d1: "dims s1 = filter (\<lambda>n. n \<noteq> ''age_group'') (dims s0)"
    by (rule dims_filtered [OF ax1])
  have dist1: "distinct (dims s1)" using dist0 d1 by simp
  have set1: "set (dims s1) = {''step'', ''risk_group'', ''vertex''}"
    using set0 d1 by auto
  from set1 have "''risk_group'' \<in> set (dims s1)" by simp
  from sum_dim_present [OF this] obtain k2
    where k2: "dim_pos ''risk_group'' (dims s1) = Some k2"
      and sum2: "sum_dim ''risk_group'' s1 = Inr (sum_axis k2 s1)"
    by blast
  define s2 where "s2 = sum_axis k2 s1"
  have ax2: "axes s2 = filter (\<lambda>ax. fst ax \<noteq> ''risk_group'') (axes s1)"
    unfolding s2_def by (rule axes_sum_axis [OF dist1 k2])
  have d2: "dims s2 = filter (\<lambda>n. n \<noteq> ''risk_group'') (dims s1)"
    by (rule dims_filtered [OF ax2])
  have dist2: "distinct (dims s2)" using dist1 d2 by simp
  have set2: "set (dims s2) = {''step'', ''vertex''}"
    using set1 d2 by auto
  from set2 have "''vertex'' \<in> set (dims s2)" by simp
  from sum_dim_present [OF this] obtain k3
    where k3: "dim_pos ''vertex'' (dims s2) = Some k3"
      and sum3: "sum_dim ''vertex'' s2 = Inr (sum_axis k3 s2)"
    by blast
  define p where "p = sum_axis k3 s2"
  have ax3: "axes p = filter (\<lambda>ax. fst ax \<noteq> ''vertex'') (axes s2)"
    unfolding p_def by (rule axes_sum_axis [OF dist2 k3])
  have d3: "dims p = filter (\<lambda>n. n \<noteq> ''vertex'') (dims s2)"
    by (rule dims_filtered [OF ax3])
  have dist3: "distinct (dims p)" using dist2 d3 by simp
  have set3: "set (dims p) = {''step''}"
    using set2 d3 by auto
  have dp: "dims p = [''step'']"
    by (rule singleton_list [OF dist3 set3])
  \<comment> \<open>the result of the extraction\<close>
  have sums: "sum_dims [''age_group'', ''risk_group'', ''vertex''] s0 = Inr p"
    using sum1 sum2 sum3 by (simp add: s1_def s2_def p_def)
  have "length (shape p) = length (dims p)" by (simp add: shape_def dims_def)
  with dp have shp: "length (shape p) = 1" by simp
  have res: "ih_pred out_ds = Inr p"
    using c loc sums shp dp by (simp add: ih_pred_def s0_def)
  \<comment> \<open>its only axis is the time axis of the counts\<close>
  have "map_of (axes p) ''step'' = map_of (axes s2) ''step''"
    by (simp add: ax3 map_of_filter_neq)
  also have "\<dots> = map_of (axes s1) ''step''"
    by (simp add: ax2 map_of_filter_neq)
  also have "\<dots> = map_of (axes s0) ''step''"
    by (simp add: ax1 map_of_filter_neq)
  also have "\<dots> = map_of (axes c) ''step''"
    by (simp add: ax0 map_of_filter_neq)
  finally have "map_of (axes p) ''step'' = map_of (axes c) ''step''" .
  with dp obtain ix where ix: "axes p = [(''step'', ix)]" "map_of (axes c) ''step'' = Some ix"
    by (cases "axes p") (auto simp: dims_def)
  \<comment> \<open>the sizes of the axes summed away\<close>
  have n3: "dim_size s2 ''vertex'' = dim_size c ''vertex''"
    by (simp add: dim_size_filtered [OF ax2] dim_size_filtered [OF ax1] dim_size_filtered [OF ax0])
  have n2: "dim_size s1 ''risk_group'' = dim_size c ''risk_group''"
    by (simp add: dim_size_filtered [OF ax1] dim_size_filtered [OF ax0])
  have n1: "dim_size s0 ''age_group'' = dim_size c ''age_group''"
    by (simp add: dim_size_filtered [OF ax0])
  \<comment> \<open>its cells\<close>
  have cells: "vals p [t] =
      (\<Sum>v<dim_size c ''vertex''. \<Sum>g<dim_size c ''risk_group''.
         \<Sum>a<dim_size c ''age_group''. counts_cell c t i a g v)" for t
  proof -
    define m where "m = (\<lambda>d::string. 0::nat)(''step'' := t)"
    have "vals p [t] = cell p m" by (simp add: cell_def dp m_def)
    also have "\<dots> = (\<Sum>v<dim_size c ''vertex''. cell s2 (m(''vertex'' := v)))"
      unfolding p_def by (simp add: cell_sum_axis [OF dist2 k3] n3)
    also have "\<dots> = (\<Sum>v<dim_size c ''vertex''. \<Sum>g<dim_size c ''risk_group''.
        cell s1 (m(''vertex'' := v, ''risk_group'' := g)))"
      unfolding s2_def by (simp add: cell_sum_axis [OF dist1 k2] n2)
    also have "\<dots> = (\<Sum>v<dim_size c ''vertex''. \<Sum>g<dim_size c ''risk_group''.
        \<Sum>a<dim_size c ''age_group''.
          cell s0 (m(''vertex'' := v, ''risk_group'' := g, ''age_group'' := a)))"
      unfolding s1_def by (simp add: cell_sum_axis [OF dist0 k1] n1)
    also have "\<dots> = (\<Sum>v<dim_size c ''vertex''. \<Sum>g<dim_size c ''risk_group''.
        \<Sum>a<dim_size c ''age_group''.
          cell c (m(''vertex'' := v, ''risk_group'' := g, ''age_group'' := a,
                    ''compartment'' := i)))"
      unfolding s0_def by (simp add: cell_isel [OF dist k0])
    also have "\<dots> = (\<Sum>v<dim_size c ''vertex''. \<Sum>g<dim_size c ''risk_group''.
        \<Sum>a<dim_size c ''age_group''. counts_cell c t i a g v)"
    proof -
      have "m(''vertex'' := v, ''risk_group'' := g, ''age_group'' := a, ''compartment'' := i)
          = (\<lambda>d. 0)(''step'' := t, ''compartment'' := i, ''age_group'' := a,
                       ''risk_group'' := g, ''vertex'' := v)" for v g a
        unfolding m_def by (rule ext) simp
      then show ?thesis by (simp add: counts_cell_def)
    qed
    finally show ?thesis .
  qed
  from res ix cells show ?thesis by blast
qed

lemma ih_pred_Inr_axes:
  assumes "ih_pred out_ds = Inr p"
  shows "\<exists>ix. axes p = [(''step'', ix)]"
proof -
  from assms have len: "length (shape p) = 1" and mem: "''step'' \<in> set (dims p)"
    by (auto simp: ih_pred_def split: option.splits sum.splits if_splits)
  from len obtain ax where ax: "axes p = [ax]"
    by (cases "axes p") (auto simp: shape_def)
  with mem have "fst ax = ''step''" by (simp add: dims_def)
  with ax show ?thesis by (cases ax) simp
qed

lemma ih_pred_assert:
  assumes "out_ds ''apply_counts_delta__counts'' = Some c"
    and "loc ''compartment'' (LStr ''Ih'') c = Inr sel"
    and "sum_dims [''age_group'', ''risk_group'', ''vertex''] sel = Inr q"
    and "dims q \<noteq> [''step'']"
  shows "ih_pred out_ds = Inl AssertionError"
proof (cases "length (shape q) = 1")
  case False
  with assms(1-3) show ?thesis by (simp add: ih_pred_def)
next
  case True
  then obtain ax where ax: "axes q = [ax]"
    by (cases "axes q") (auto simp: shape_def)
  with assms(4) have "''step'' \<notin> set (dims q)" by (auto simp: dims_def)
  with assms(1-3) show ?thesis by (simp add: ih_pred_def)
qed

subsection \<open>The extraction on the small configuration\<close>

lemma positions_example: "positions [LStr ''S'', LStr ''Ih''] (LStr ''Ih'') = [1]"
  by code_simp

lemma ex_counts_dims:
  "dims (ex_counts b) = [''step'', ''vertex'', ''age_group'', ''risk_group'', ''compartment'']"
  by (simp add: dims_def ex_counts_def)

lemma ex_counts_sizes:
  "dim_size (ex_counts b) ''vertex'' = 2"
  "dim_size (ex_counts b) ''risk_group'' = 1"
  "dim_size (ex_counts b) ''age_group'' = 2"
  by (simp_all add: dim_size_def ex_counts_def)

lemma ex_counts_cell:
  "counts_cell (ex_counts b) t (Suc 0) a g v =
     2 * b * ([20, 30, 25] ! t + (if v = 0 \<and> a = 0 then [30, 20, 20] ! t else 0))"
  by (simp add: counts_cell_def cell_def ex_counts_dims) (simp add: ex_counts_def)

lemma ex_ih_pred:
  "\<exists>p. ih_pred (ex_out b) = Inr p \<and> axes p = [(''step'', Labels [LInt 0, LInt 1, LInt 2])] \<and>
     vals p [0] = 220 * b \<and> vals p [1] = 280 * b \<and> vals p [2] = 240 * b"
proof -
  have c: "ex_out b ''apply_counts_delta__counts'' = Some (ex_counts b)"
    by (simp add: ex_out_def)
  have dist: "distinct (dims (ex_counts b))" by (simp add: ex_counts_dims)
  have names: "set (dims (ex_counts b)) =
      {''step'', ''compartment'', ''age_group'', ''risk_group'', ''vertex''}"
    by (auto simp: ex_counts_dims)
  have comp: "map_of (axes (ex_counts b)) ''compartment'' = Some (Labels [LStr ''S'', LStr ''Ih''])"
    by (simp add: ex_counts_def)
  from ih_pred_counts [of "ex_out b" "ex_counts b", OF c dist names comp positions_example]
  obtain p ix where p: "ih_pred (ex_out b) = Inr p" "axes p = [(''step'', ix)]"
      "map_of (axes (ex_counts b)) ''step'' = Some ix"
      "\<And>t. vals p [t] = (\<Sum>v<dim_size (ex_counts b) ''vertex''.
          \<Sum>g<dim_size (ex_counts b) ''risk_group''.
          \<Sum>a<dim_size (ex_counts b) ''age_group''. counts_cell (ex_counts b) t 1 a g v)"
    by blast
  from p(3) have ix: "ix = Labels [LInt 0, LInt 1, LInt 2]" by (simp add: ex_counts_def)
  have two: "{..<2::nat} = {0, 1}" by auto
  have v: "vals p [0] = 220 * b" "vals p [1] = 280 * b" "vals p [2] = 240 * b"
    by (simp_all add: p(4) ex_counts_sizes ex_counts_cell two algebra_simps)
  from p(1,2) ix v show ?thesis by blast
qed

subsection \<open>Alignment and subtraction of two series\<close>



lemma join_index_same:
  "join_index ix ix = Inr (ix, [0..<index_size ix], [0..<index_size ix])"
  by (cases ix) simp_all

lemma darray_sub_series:
  assumes "axes p = [(''step'', ixp)]" and "axes obs = [(''step'', ixo)]"
  shows "darray_sub p obs =
     (case join_index ixp ixo of
        Inl e \<Rightarrow> Inl e
      | Inr (j, ls, rs) \<Rightarrow>
          Inr \<lparr>axes = [(''step'', j)],
               vals = (\<lambda>ps. vals p [ls ! (ps ! 0)] - vals obs [rs ! (ps ! 0)])\<rparr>)"
  using assms by (simp add: darray_sub_def dims_def split: sum.splits prod.splits)

subsection \<open>The residual\<close>

lemma calc_residual_run:
  assumes "get_in_ds xs self dep_vars = Inr in_ds"
    and "run xs in_ds (model self) [(''mask_and_scale'', False)] = Inr out_ds"
  shows "calc_residual xs self dep_vars ih_actual runs =
     (case ih_pred out_ds of
        Inl e \<Rightarrow> (Inl e, self, runs @ [in_ds])
      | Inr p \<Rightarrow> (darray_sub p ih_actual, self, runs @ [in_ds]))"
  using assms by (simp add: calc_residual_def get_out_ds_def)

lemma calc_residual_valid:
  assumes gi: "get_in_ds xs self dep_vars = Inr in_ds"
    and ru: "run xs in_ds (model self) [(''mask_and_scale'', False)] = Inr out_ds"
    and c: "out_ds ''apply_counts_delta__counts'' = Some c"
    and dist: "distinct (dims c)"
    and names: "set (dims c) = {''step'', ''compartment'', ''age_group'', ''risk_group'', ''vertex''}"
    and comp: "map_of (axes c) ''compartment'' = Some (Labels ls)"
    and ih: "positions ls (LStr ''Ih'') = [i]"
    and step: "map_of (axes c) ''step'' = Some ix"
    and obs: "axes ih_actual = [(''step'', ix)]"
  shows "\<exists>r. calc_residual xs self dep_vars ih_actual runs = (Inr r, self, runs @ [in_ds]) \<and>
     axes r = [(''step'', ix)] \<and>
     (\<forall>t<index_size ix. vals r [t] =
        (\<Sum>v<dim_size c ''vertex''. \<Sum>g<dim_size c ''risk_group''.
           \<Sum>a<dim_size c ''age_group''. counts_cell c t i a g v) - vals ih_actual [t])"
proof -
  from ih_pred_counts [of out_ds c, OF c dist names comp ih] step
  obtain p where p: "ih_pred out_ds = Inr p" "axes p = [(''step'', ix)]"
    and v: "\<And>t. vals p [t] =
        (\<Sum>v<dim_size c ''vertex''. \<Sum>g<dim_size c ''risk_group''.
           \<Sum>a<dim_size c ''age_group''. counts_cell c t i a g v)"
    by auto
  define r where "r = \<lparr>axes = [(''step'', ix)],
      vals = (\<lambda>ps. vals p [[0..<index_size ix] ! (ps ! 0)]
                   - vals ih_actual [[0..<index_size ix] ! (ps ! 0)])\<rparr>"
  have sub: "darray_sub p ih_actual = Inr r"
    by (simp add: darray_sub_series [OF p(2) obs] join_index_same r_def)
  have "calc_residual xs self dep_vars ih_actual runs = (Inr r, self, runs @ [in_ds])"
    by (simp add: calc_residual_run [OF gi ru] p(1) sub)
  moreover have "axes r = [(''step'', ix)]" by (simp add: r_def)
  moreover have "vals r [t] =
        (\<Sum>v<dim_size c ''vertex''. \<Sum>g<dim_size c ''risk_group''.
           \<Sum>a<dim_size c ''age_group''. counts_cell c t i a g v) - vals ih_actual [t]"
    if "t < index_size ix" for t
    using that by (simp add: r_def v)
  ultimately show ?thesis by blast
qed

subsection \<open>The residual on the small configuration\<close>

lemma ex_get_in_ds: "get_in_ds ex_xs ex_fitter (b # rest) = Inr (ex_in_ds b)"
  by (simp add: get_in_ds_def ex_xs_def ex_fitter_def ex_in_ds_def)

lemma ex_run: "run ex_xs (ex_in_ds b) m dec = Inr (ex_out b)"
  by (simp add: ex_xs_def ex_in_ds_def)

lemma ex_obs_axes: "axes ex_obs = [(''step'', Labels [LInt 0, LInt 1, LInt 2])]"
  by (simp add: ex_obs_def)

lemma ex_obs_vals: "vals ex_obs [t] = [100, 150, 130] ! t"
  by (simp add: ex_obs_def)

lemma ex_counts_facts:
  "ex_out b ''apply_counts_delta__counts'' = Some (ex_counts b)"
  "distinct (dims (ex_counts b))"
  "set (dims (ex_counts b)) = {''step'', ''compartment'', ''age_group'', ''risk_group'', ''vertex''}"
  "map_of (axes (ex_counts b)) ''compartment'' = Some (Labels [LStr ''S'', LStr ''Ih''])"
  "map_of (axes (ex_counts b)) ''step'' = Some (Labels [LInt 0, LInt 1, LInt 2])"
proof -
  show "ex_out b ''apply_counts_delta__counts'' = Some (ex_counts b)"
    by (simp add: ex_out_def)
  show "distinct (dims (ex_counts b))" by (simp add: ex_counts_dims)
  show "set (dims (ex_counts b)) =
      {''step'', ''compartment'', ''age_group'', ''risk_group'', ''vertex''}"
    by (auto simp: ex_counts_dims)
  show "map_of (axes (ex_counts b)) ''compartment'' = Some (Labels [LStr ''S'', LStr ''Ih''])"
    by (simp add: ex_counts_def)
  show "map_of (axes (ex_counts b)) ''step'' = Some (Labels [LInt 0, LInt 1, LInt 2])"
    by (simp add: ex_counts_def)
qed

lemma ex_counts_sum:
  "(\<Sum>v<dim_size (ex_counts b) ''vertex''. \<Sum>g<dim_size (ex_counts b) ''risk_group''.
      \<Sum>a<dim_size (ex_counts b) ''age_group''. counts_cell (ex_counts b) t (Suc 0) a g v)
   = 2 * b * (4 * [20, 30, 25] ! t + [30, 20, 20] ! t)"
proof -
  have two: "{..<2::nat} = {0, 1}" by auto
  show ?thesis by (simp add: ex_counts_sizes ex_counts_cell two algebra_simps)
qed

lemma ex_calc_residual:
  "\<exists>r. calc_residual ex_xs ex_fitter [1 / 2] ex_obs runs = (Inr r, ex_fitter, runs @ [ex_in_ds (1 / 2)]) \<and>
     axes r = [(''step'', Labels [LInt 0, LInt 1, LInt 2])] \<and>
     vals r [0] = 10 \<and> vals r [1] = - 10 \<and> vals r [2] = - 10"
proof -
  from calc_residual_valid [where xs = ex_xs and self = ex_fitter and dep_vars = "[1 / 2]"
      and runs = runs, OF ex_get_in_ds ex_run ex_counts_facts(1-4) positions_example
      ex_counts_facts(5) ex_obs_axes]
  obtain r where r1: "calc_residual ex_xs ex_fitter [1 / 2] ex_obs runs =
        (Inr r, ex_fitter, runs @ [ex_in_ds (1 / 2)])"
    and r2: "axes r = [(''step'', Labels [LInt 0, LInt 1, LInt 2])]"
    and r3: "\<forall>t<index_size (Labels [LInt 0, LInt 1, LInt 2]). vals r [t] =
        (\<Sum>v<dim_size (ex_counts (1 / 2)) ''vertex''.
           \<Sum>g<dim_size (ex_counts (1 / 2)) ''risk_group''.
           \<Sum>a<dim_size (ex_counts (1 / 2)) ''age_group''.
              counts_cell (ex_counts (1 / 2)) t 1 a g v) - vals ex_obs [t]"
    by blast
  have "vals r [0] = 10" "vals r [1] = - 10" "vals r [2] = - 10"
    using r3 by (simp_all add: ex_counts_sum ex_obs_vals)
  with r1 r2 show ?thesis by blast
qed

lemma ex_static_run:
  "get_in_ds (ex_xs_static c) ex_fitter (b # rest) = Inr (ex_in_ds b)"
  "run (ex_xs_static c) in_ds m dec =
     Inr (\<lambda>name. if name = ''apply_counts_delta__counts'' then Some c else None)"
  by (simp_all add: get_in_ds_def ex_xs_static_def ex_fitter_def ex_in_ds_def)

lemma ex_no_step_extraction:
  "\<exists>sel q. loc ''compartment'' (LStr ''Ih'') ex_counts_no_step = Inr sel \<and>
     sum_dims [''age_group'', ''risk_group'', ''vertex''] sel = Inr q \<and> dims q = []"
proof -
  have d: "dims ex_counts_no_step = [''vertex'', ''age_group'', ''risk_group'', ''compartment'']"
    by (simp add: dims_def ex_counts_no_step_def)
  have ax: "snd (axes ex_counts_no_step ! 3) = Labels [LStr ''S'', LStr ''Ih'']"
    by (simp add: ex_counts_no_step_def)
  have k: "dim_pos ''compartment'' (dims ex_counts_no_step) = Some 3"
    by (simp add: d)
  define s0 where "s0 = isel 3 1 ex_counts_no_step"
  have l: "loc ''compartment'' (LStr ''Ih'') ex_counts_no_step = Inr s0"
    unfolding loc_def k s0_def by (simp add: ax positions_example)
  have d0: "dims s0 = [''vertex'', ''age_group'', ''risk_group'']"
    unfolding s0_def by (simp add: dims_isel d remove_at_def)
  define s1 where "s1 = sum_axis 1 s0"
  have d1: "dims s1 = [''vertex'', ''risk_group'']"
    unfolding s1_def by (simp add: dims_sum_axis d0 remove_at_def)
  have e1: "sum_dim ''age_group'' s0 = Inr s1"
    by (simp add: sum_dim_def d0 s1_def)
  define s2 where "s2 = sum_axis 1 s1"
  have d2: "dims s2 = [''vertex'']"
    unfolding s2_def by (simp add: dims_sum_axis d1 remove_at_def)
  have e2: "sum_dim ''risk_group'' s1 = Inr s2"
    by (simp add: sum_dim_def d1 s2_def)
  define q where "q = sum_axis 0 s2"
  have d3: "dims q = []"
    unfolding q_def by (simp add: dims_sum_axis d2 remove_at_def)
  have e3: "sum_dim ''vertex'' s2 = Inr q"
    by (simp add: sum_dim_def d2 q_def)
  have "sum_dims [''age_group'', ''risk_group'', ''vertex''] s0 = Inr q"
    by (simp add: e1 e2 e3)
  with l d3 show ?thesis by blast
qed

subsection \<open>Alignment of time axes of different lengths\<close>

lemma join_index_error: "join_index x y = Inl e \<Longrightarrow> e = ValueError"
  by (cases x; cases y) (auto simp: Let_def split: if_splits)

lemma join_index_labels:
  assumes "distinct a" and "distinct b"
  shows "\<exists>ls rs. join_index (Labels a) (Labels b) = Inr (Labels (filter (\<lambda>l. l \<in> set b) a), ls, rs)"
proof (cases "a = b")
  case True
  then have "filter (\<lambda>l. l \<in> set b) a = a" by simp
  with True show ?thesis by simp
next
  case False
  with assms show ?thesis by (simp add: Let_def)
qed

lemma join_index_duplicates:
  "a \<noteq> b \<Longrightarrow> \<not> (distinct a \<and> distinct b) \<Longrightarrow> join_index (Labels a) (Labels b) = Inl ValueError"
  by auto

lemma join_index_unlabelled:
  assumes "\<forall>a b. \<not> (x = Labels a \<and> y = Labels b)" and "index_size x \<noteq> index_size y"
  shows "join_index x y = Inl ValueError"
  using assms by (cases x; cases y) auto

lemma calc_residual_series:
  assumes "get_in_ds xs self dep_vars = Inr in_ds"
    and "run xs in_ds (model self) [(''mask_and_scale'', False)] = Inr out_ds"
    and "ih_pred out_ds = Inr p"
    and "axes p = [(''step'', ixp)]"
    and "axes ih_actual = [(''step'', ixo)]"
  shows "fst (calc_residual xs self dep_vars ih_actual runs) =
     (case join_index ixp ixo of
        Inl e \<Rightarrow> Inl e
      | Inr (j, ls, rs) \<Rightarrow>
          Inr \<lparr>axes = [(''step'', j)],
               vals = (\<lambda>ps. vals p [ls ! (ps ! 0)] - vals ih_actual [rs ! (ps ! 0)])\<rparr>)"
  by (simp add: calc_residual_run [OF assms(1,2)] assms(3) darray_sub_series [OF assms(4,5)])

lemma ex_obs_long_axes: "axes ex_obs_long = [(''step'', Labels [LInt 0, LInt 1, LInt 5, LInt 6])]"
  by (simp add: ex_obs_long_def)

subsection \<open>Missing labels, and the state that a call leaves\<close>

lemma positions_empty: "l \<notin> set ls \<Longrightarrow> positions ls l = []"
  by (auto simp: positions_def filter_empty_conv)

lemma loc_missing_label:
  assumes "distinct (dims a)" and "map_of (axes a) d = Some (Labels ls)" and "l \<notin> set ls"
  shows "loc d l a = Inl KeyError"
proof -
  from assms(2) have "d \<in> set (dims a)"
    by (auto simp: dims_def dest: map_of_SomeD intro: rev_image_eqI)
  then obtain k where k: "dim_pos d (dims a) = Some k"
    using dim_pos_mem by blast
  with assms(1) have "map_of (axes a) d = Some (snd (axes a ! k))"
    using axes_nth_map_of [of "axes a" d k] by (simp add: dims_def)
  with assms(2) have "snd (axes a ! k) = Labels ls" by simp
  with k positions_empty [OF assms(3)] show ?thesis by (simp add: loc_def)
qed

lemma calc_residual_fst_runs:
  "fst (calc_residual xs self dep_vars ih_actual runs) =
   fst (calc_residual xs self dep_vars ih_actual runs')"
  by (simp add: calc_residual_def get_out_ds_def split: sum.splits)

lemma ex_counts_no_ih_facts:
  "distinct (dims ex_counts_no_ih)"
  "map_of (axes ex_counts_no_ih) ''compartment'' = Some (Labels [LStr ''S'', LStr ''E''])"
  by (simp_all add: dims_def ex_counts_no_ih_def)

subsection \<open>The attribute \<^verbatim>\<open>dep_var\<close> and the optimizer call\<close>

lemma get_in_ds_dep_var: "get_in_ds xs (self\<lparr>dep_var := d\<rparr>) dep_vars = get_in_ds xs self dep_vars"
  by (cases dep_vars) (simp_all add: get_in_ds_def)

lemma calc_residual_dep_var:
  "fst (calc_residual xs (self\<lparr>dep_var := d\<rparr>) dep_vars ih_actual runs) =
     fst (calc_residual xs self dep_vars ih_actual runs)"
  "snd (snd (calc_residual xs (self\<lparr>dep_var := d\<rparr>) dep_vars ih_actual runs)) =
     snd (snd (calc_residual xs self dep_vars ih_actual runs))"
  by (simp_all add: calc_residual_def get_out_ds_def get_in_ds_dep_var split: sum.splits)

lemma fit_call_fields:
  "ls_x0 (fit_call xs self) = guess self"
  "ls_xtol (fit_call xs self) = 1 / 10 ^ 8"
  "ls_verbose (fit_call xs self) = verbosity self"
  "ls_args (fit_call xs self) = [data self]"
  "ls_extra (fit_call xs self) = ls_kwargs self"
  "ls_fun (fit_call xs self) x obs runs =
     (fst (calc_residual xs self x obs runs), snd (snd (calc_residual xs self x obs runs)))"
  by (simp_all add: fit_call_def split: prod.splits)

lemma ex_least_squares_call:
  "ex_least_squares (fit_call ex_xs ex_fitter) [] =
     (Inr \<lparr>sol_x = [1 / 2], sol_cost = 150, sol_status = 0\<rparr>, [ex_in_ds (1 / 2)])"
proof -
  from ex_calc_residual [of "[]"] obtain r
    where r: "calc_residual ex_xs ex_fitter [1 / 2] ex_obs [] = (Inr r, ex_fitter, [ex_in_ds (1 / 2)])"
      and ax: "axes r = [(''step'', Labels [LInt 0, LInt 1, LInt 2])]"
      and v: "vals r [0] = 10" "vals r [1] = - 10" "vals r [2] = - 10"
    by auto
  have f: "guess ex_fitter = 1 / 2" "data ex_fitter = ex_obs"
    by (simp_all add: ex_fitter_def)
  have u: "[0..<3] = [0, 1, 2]" by (simp add: numeral_3_eq_3)
  have cost: "sum_list (map (\<lambda>k. (vals r [k])\<^sup>2) [0..<dim_size r ''step'']) / 2 = 150"
  proof -
    from v have "vals r [Suc 0] = - 10" "vals r [Suc (Suc 0)] = - 10"
      by (simp_all add: numeral_2_eq_2)
    with v(1) show ?thesis by (simp add: dim_size_def ax u)
  qed
  show ?thesis
    unfolding ex_least_squares_def
    by (simp only: fit_call_fields f list.case r fst_conv snd_conv prod.case sum.case cost)
qed

subsection \<open>Observed series on the time steps of the simulation; runs; keyword defaults\<close>

lemma filter_subset_length:
  assumes "distinct a" and "distinct b" and "set b \<subseteq> set a"
  shows "length (filter (\<lambda>l. l \<in> set b) a) = length b"
proof -
  define f where "f = filter (\<lambda>l. l \<in> set b) a"
  have "distinct f" using assms(1) by (simp add: f_def)
  then have "length f = card (set f)" by (rule distinct_card [symmetric])
  also have "set f = set b" using assms(3) by (auto simp: f_def)
  also have "card (set b) = length b" using assms(2) by (rule distinct_card)
  finally show ?thesis by (simp add: f_def)
qed

lemma join_index_on_time_steps:
  assumes "on_time_steps ixp ixo"
  shows "\<exists>j ls rs. join_index ixp ixo = Inr (j, ls, rs) \<and> index_size j = index_size ixo"
proof (cases ixp)
  case (Range n)
  with assms show ?thesis by (cases ixo) auto
next
  case (Labels a)
  note ixp = this
  show ?thesis
  proof (cases ixo)
    case (Range n)
    with ixp assms show ?thesis by auto
  next
    case (Labels b)
    show ?thesis
    proof (cases "a = b")
      case True
      with ixp Labels show ?thesis by simp
    next
      case False
      with ixp Labels assms have d: "distinct a" "distinct b" "set b \<subseteq> set a" by auto
      with False ixp Labels show ?thesis
        by (simp add: Let_def filter_subset_length)
    qed
  qed
qed

lemma ex_obs_shifted_axes: "axes ex_obs_shifted = [(''step'', Labels [LInt 5, LInt 6, LInt 7])]"
  by (simp add: ex_obs_shifted_def)

lemma calc_residual_of_run:
  assumes "get_in_ds xs self dep_vars = Inr in_ds"
  shows "calc_residual xs self dep_vars ih_actual runs =
     ((case run xs in_ds (model self) [(''mask_and_scale'', False)] of
         Inl e \<Rightarrow> Inl e
       | Inr out_ds \<Rightarrow>
           (case ih_pred out_ds of Inl e \<Rightarrow> Inl e | Inr p \<Rightarrow> darray_sub p ih_actual)),
      self, runs @ [in_ds])"
  using assms by (simp add: calc_residual_def get_out_ds_def split: sum.splits)

lemma calc_residual_no_setup:
  "get_in_ds xs self dep_vars = Inl e \<Longrightarrow>
   calc_residual xs self dep_vars ih_actual runs = (Inl e, self, runs)"
  by (simp add: calc_residual_def get_out_ds_def)

lemma ex_failing_get_in_ds: "get_in_ds ex_xs_failing ex_fitter (b # rest) = Inr (ex_in_ds b)"
  by (simp add: get_in_ds_def ex_xs_failing_def ex_fitter_def ex_in_ds_def)

lemma ex_failing_run: "run ex_xs_failing in_ds m dec = Inl (LibraryError ''run failed'')"
  by (simp add: ex_xs_failing_def)

lemma ls_keyword_defaults:
  "map_of (ls_kwargs self) ''gtol'' = None \<Longrightarrow>
     ls_keyword (fit_call xs self) ''gtol'' = Some (PFloat (1 / 10 ^ 8))"
  "map_of (ls_kwargs self) ''max_nfev'' = None \<Longrightarrow>
     ls_keyword (fit_call xs self) ''max_nfev'' = None"
  by (simp_all add: ls_keyword_def fit_call_def least_squares_defaults_def)

section \<open>The claims\<close>

text \<open>
  \<^bold>\<open>C1.\<close> The extraction in \<^verbatim>\<open>calc_residual\<close> yields a one-dimensional array on the
  time axis. First conjunct: for a counts array whose axes are exactly \<^verbatim>\<open>step\<close>,
  \<^verbatim>\<open>compartment\<close>, \<^verbatim>\<open>age_group\<close>, \<^verbatim>\<open>risk_group\<close> and \<^verbatim>\<open>vertex\<close> (in any order)
  and whose compartment index has the label \<^verbatim>\<open>Ih\<close> once, at position \<open>i\<close>, the
  extraction succeeds, its only axis is the time axis of the counts, and its cell at time
  \<open>t\<close> is the sum of the \<^verbatim>\<open>Ih\<close> cells at \<open>t\<close> over all vertices, risk groups and age
  groups. Second conjunct: whatever the output, a result of the extraction has exactly
  one axis, named \<^verbatim>\<open>step\<close>. Third conjunct: when selection and summation leave an array
  whose axes are not exactly the time axis, \<^verbatim>\<open>calc_residual\<close> raises
  \<^verbatim>\<open>AssertionError\<close>; the array is not coerced.
\<close>

theorem ih_pred_time_series:
  "(out_ds ''apply_counts_delta__counts'' = Some c \<and> distinct (dims c) \<and>
    set (dims c) = {''step'', ''compartment'', ''age_group'', ''risk_group'', ''vertex''} \<and>
    map_of (axes c) ''compartment'' = Some (Labels ls) \<and> positions ls (LStr ''Ih'') = [i]
    \<longrightarrow> (\<exists>p ix. ih_pred out_ds = Inr p \<and> axes p = [(''step'', ix)] \<and>
           map_of (axes c) ''step'' = Some ix \<and>
           (\<forall>t. vals p [t] =
              (\<Sum>v<dim_size c ''vertex''. \<Sum>g<dim_size c ''risk_group''.
                 \<Sum>a<dim_size c ''age_group''. counts_cell c t i a g v))))
   \<and> (ih_pred out_ds = Inr p' \<longrightarrow> (\<exists>ix. axes p' = [(''step'', ix)]))
   \<and> (get_in_ds xs self dep_vars = Inr in_ds \<and>
      run xs in_ds (model self) [(''mask_and_scale'', False)] = Inr out_ds \<and>
      out_ds ''apply_counts_delta__counts'' = Some c' \<and>
      loc ''compartment'' (LStr ''Ih'') c' = Inr sel \<and>
      sum_dims [''age_group'', ''risk_group'', ''vertex''] sel = Inr q \<and>
      dims q \<noteq> [''step'']
      \<longrightarrow> fst (calc_residual xs self dep_vars ih_actual runs) = Inl AssertionError)"
proof (intro conjI impI)
  assume "out_ds ''apply_counts_delta__counts'' = Some c \<and> distinct (dims c) \<and>
    set (dims c) = {''step'', ''compartment'', ''age_group'', ''risk_group'', ''vertex''} \<and>
    map_of (axes c) ''compartment'' = Some (Labels ls) \<and> positions ls (LStr ''Ih'') = [i]"
  then show "\<exists>p ix. ih_pred out_ds = Inr p \<and> axes p = [(''step'', ix)] \<and>
           map_of (axes c) ''step'' = Some ix \<and>
           (\<forall>t. vals p [t] =
              (\<Sum>v<dim_size c ''vertex''. \<Sum>g<dim_size c ''risk_group''.
                 \<Sum>a<dim_size c ''age_group''. counts_cell c t i a g v))"
    using ih_pred_counts [of out_ds c ls i] by blast
next
  assume "ih_pred out_ds = Inr p'"
  then show "\<exists>ix. axes p' = [(''step'', ix)]" by (rule ih_pred_Inr_axes)
next
  assume a: "get_in_ds xs self dep_vars = Inr in_ds \<and>
      run xs in_ds (model self) [(''mask_and_scale'', False)] = Inr out_ds \<and>
      out_ds ''apply_counts_delta__counts'' = Some c' \<and>
      loc ''compartment'' (LStr ''Ih'') c' = Inr sel \<and>
      sum_dims [''age_group'', ''risk_group'', ''vertex''] sel = Inr q \<and>
      dims q \<noteq> [''step'']"
  then have "ih_pred out_ds = Inl AssertionError"
    using ih_pred_assert [of out_ds c' sel q] by blast
  with a show "fst (calc_residual xs self dep_vars ih_actual runs) = Inl AssertionError"
    using calc_residual_run [of xs self dep_vars in_ds out_ds ih_actual runs] by simp
qed

theorem ih_pred_time_series_witness:
  "(\<exists>p. ih_pred (ex_out (1 / 2)) = Inr p \<and>
        axes p = [(''step'', Labels [LInt 0, LInt 1, LInt 2])] \<and>
        vals p [0] = 110 \<and> vals p [1] = 140 \<and> vals p [2] = 120) \<and>
   fst (calc_residual (ex_xs_static ex_counts_no_step) ex_fitter [1 / 2] ex_obs []) =
     Inl AssertionError"
proof
  have pre: "ex_out (1 / 2) ''apply_counts_delta__counts'' = Some (ex_counts (1 / 2)) \<and>
      distinct (dims (ex_counts (1 / 2))) \<and>
      set (dims (ex_counts (1 / 2))) =
        {''step'', ''compartment'', ''age_group'', ''risk_group'', ''vertex''} \<and>
      map_of (axes (ex_counts (1 / 2))) ''compartment'' = Some (Labels [LStr ''S'', LStr ''Ih'']) \<and>
      positions [LStr ''S'', LStr ''Ih''] (LStr ''Ih'') = [1]"
    by (intro conjI ex_counts_facts positions_example)
  from ih_pred_time_series [where out_ds = "ex_out (1 / 2)" and c = "ex_counts (1 / 2)"
      and ls = "[LStr ''S'', LStr ''Ih'']" and i = 1, THEN conjunct1, THEN mp, OF pre]
  obtain p ix where p: "ih_pred (ex_out (1 / 2)) = Inr p"
      "axes p = [(''step'', ix)]" "map_of (axes (ex_counts (1 / 2))) ''step'' = Some ix"
      "\<forall>t. vals p [t] = (\<Sum>v<dim_size (ex_counts (1 / 2)) ''vertex''.
          \<Sum>g<dim_size (ex_counts (1 / 2)) ''risk_group''.
          \<Sum>a<dim_size (ex_counts (1 / 2)) ''age_group''.
             counts_cell (ex_counts (1 / 2)) t 1 a g v)"
    by blast
  from p(3) have ix: "ix = Labels [LInt 0, LInt 1, LInt 2]"
    by (simp add: ex_counts_facts(5))
  have v: "vals p [0] = 110" "vals p [1] = 140" "vals p [2] = 120"
    using p(4) by (simp_all add: ex_counts_sum)
  from p(1,2) ix v
  show "\<exists>p. ih_pred (ex_out (1 / 2)) = Inr p \<and>
        axes p = [(''step'', Labels [LInt 0, LInt 1, LInt 2])] \<and>
        vals p [0] = 110 \<and> vals p [1] = 140 \<and> vals p [2] = 120"
    by blast
next
  define D :: dataset
    where "D = (\<lambda>name. if name = ''apply_counts_delta__counts'' then Some ex_counts_no_step else None)"
  from ex_no_step_extraction obtain sel q
    where sel: "loc ''compartment'' (LStr ''Ih'') ex_counts_no_step = Inr sel"
      and q: "sum_dims [''age_group'', ''risk_group'', ''vertex''] sel = Inr q"
      and dq: "dims q = []"
    by blast
  have g: "get_in_ds (ex_xs_static ex_counts_no_step) ex_fitter [1 / 2] = Inr (ex_in_ds (1 / 2))"
    by (rule ex_static_run(1))
  have r: "run (ex_xs_static ex_counts_no_step) (ex_in_ds (1 / 2)) (model ex_fitter)
        [(''mask_and_scale'', False)] = Inr D"
    unfolding D_def by (rule ex_static_run(2))
  have cD: "D ''apply_counts_delta__counts'' = Some ex_counts_no_step"
    by (simp add: D_def)
  from dq have ne: "dims q \<noteq> [''step'']" by simp
  show "fst (calc_residual (ex_xs_static ex_counts_no_step) ex_fitter [1 / 2] ex_obs []) =
     Inl AssertionError"
    by (rule ih_pred_time_series [where out_ds = D and c' = ex_counts_no_step
          and in_ds = "ex_in_ds (1 / 2)" and sel = sel and q = q,
          THEN conjunct2, THEN conjunct2, THEN mp])
       (intro conjI g r cD sel q ne)
qed



text \<open>
  \<^bold>\<open>C3\<close> (as amended; the statement of the specification fails, see the counterexample
  below). The two assertions of \<^verbatim>\<open>calc_residual\<close> inspect the extracted series only, so
  an observed series of another time length never raises \<^verbatim>\<open>AssertionError\<close>. For an
  observed series on the one axis \<^verbatim>\<open>step\<close> and a successful extraction: when both time
  axes carry unique labels, the residual is computed on the labels common to both (the
  inner join of the two indexes, in the order of the extracted series), so it can be
  shorter than either series; when the labels differ and are not unique on both sides, or
  when an axis has no labels and the sizes differ, the alignment raises
  \<^verbatim>\<open>ValueError\<close>.
\<close>

theorem calc_residual_length_mismatch:
  assumes "get_in_ds xs self dep_vars = Inr in_ds"
    and "run xs in_ds (model self) [(''mask_and_scale'', False)] = Inr out_ds"
    and "ih_pred out_ds = Inr p"
    and "axes p = [(''step'', ixp)]"
    and "axes ih_actual = [(''step'', ixo)]"
  shows "fst (calc_residual xs self dep_vars ih_actual runs) \<noteq> Inl AssertionError \<and>
     (\<forall>lp lo. ixp = Labels lp \<and> ixo = Labels lo \<and> distinct lp \<and> distinct lo \<longrightarrow>
        (\<exists>r. fst (calc_residual xs self dep_vars ih_actual runs) = Inr r \<and>
             axes r = [(''step'', Labels (filter (\<lambda>l. l \<in> set lo) lp))])) \<and>
     (\<forall>lp lo. ixp = Labels lp \<and> ixo = Labels lo \<and> lp \<noteq> lo \<and> \<not> (distinct lp \<and> distinct lo) \<longrightarrow>
        fst (calc_residual xs self dep_vars ih_actual runs) = Inl ValueError) \<and>
     ((\<forall>lp lo. \<not> (ixp = Labels lp \<and> ixo = Labels lo)) \<and> index_size ixp \<noteq> index_size ixo \<longrightarrow>
        fst (calc_residual xs self dep_vars ih_actual runs) = Inl ValueError)"
proof -
  note res = calc_residual_series [OF assms, of runs]
  have 1: "fst (calc_residual xs self dep_vars ih_actual runs) \<noteq> Inl AssertionError"
  proof (cases "join_index ixp ixo")
    case (Inl e)
    with join_index_error [OF Inl] res show ?thesis by simp
  next
    case (Inr t)
    with res show ?thesis by (cases t) simp
  qed
  have 2: "\<exists>r. fst (calc_residual xs self dep_vars ih_actual runs) = Inr r \<and>
             axes r = [(''step'', Labels (filter (\<lambda>l. l \<in> set lo) lp))]"
    if "ixp = Labels lp \<and> ixo = Labels lo \<and> distinct lp \<and> distinct lo" for lp lo
  proof -
    from that join_index_labels [of lp lo] obtain ls rs
      where "join_index ixp ixo = Inr (Labels (filter (\<lambda>l. l \<in> set lo) lp), ls, rs)"
      by blast
    with res show ?thesis by simp
  qed
  have 3: "fst (calc_residual xs self dep_vars ih_actual runs) = Inl ValueError"
    if "ixp = Labels lp \<and> ixo = Labels lo \<and> lp \<noteq> lo \<and> \<not> (distinct lp \<and> distinct lo)" for lp lo
  proof -
    from that have "join_index ixp ixo = Inl ValueError"
      using join_index_duplicates [of lp lo] by blast
    with res show ?thesis by simp
  qed
  have 4: "fst (calc_residual xs self dep_vars ih_actual runs) = Inl ValueError"
    if "(\<forall>lp lo. \<not> (ixp = Labels lp \<and> ixo = Labels lo)) \<and> index_size ixp \<noteq> index_size ixo"
  proof -
    from that have "join_index ixp ixo = Inl ValueError"
      using join_index_unlabelled [of ixp ixo] by blast
    with res show ?thesis by simp
  qed
  from 1 2 3 4 show ?thesis by blast
qed

theorem calc_residual_length_mismatch_witness:
  "\<exists>r. fst (calc_residual ex_xs ex_fitter [1 / 2] ex_obs_long []) = Inr r \<and>
       axes r = [(''step'', Labels [LInt 0, LInt 1])]"
proof -
  from ex_ih_pred [of "1 / 2"] obtain p
    where p: "ih_pred (ex_out (1 / 2)) = Inr p"
      "axes p = [(''step'', Labels [LInt 0, LInt 1, LInt 2])]"
    by auto
  have d: "Labels [LInt 0, LInt 1, LInt 2] = Labels [LInt 0, LInt 1, LInt 2] \<and>
      Labels [LInt 0, LInt 1, LInt 5, LInt 6] = Labels [LInt 0, LInt 1, LInt 5, LInt 6] \<and>
      distinct [LInt 0, LInt 1, LInt 2] \<and> distinct [LInt 0, LInt 1, LInt 5, LInt 6]"
    by simp
  from calc_residual_length_mismatch [OF ex_get_in_ds ex_run p ex_obs_long_axes, of "[]" "[]"]
  have "\<exists>r. fst (calc_residual ex_xs ex_fitter [1 / 2] ex_obs_long []) = Inr r \<and>
      axes r = [(''step'', Labels (filter (\<lambda>l. l \<in> set [LInt 0, LInt 1, LInt 5, LInt 6])
                                      [LInt 0, LInt 1, LInt 2]))]"
    using d by blast
  then show ?thesis by simp
qed

text \<open>
  The counterexample to C3 as stated: the observed series has four time steps, the
  extracted series three, and \<^verbatim>\<open>calc_residual\<close> returns a residual on the two time
  steps they share instead of raising.
\<close>

theorem calc_residual_length_mismatch_counterexample:
  "shape ex_obs_long = [4] \<and>
   (\<exists>p r. fst (get_out_ds ex_xs ex_fitter [1 / 2] []) = Inr (ex_out (1 / 2)) \<and>
      ih_pred (ex_out (1 / 2)) = Inr p \<and> shape p = [3] \<and>
      fst (calc_residual ex_xs ex_fitter [1 / 2] ex_obs_long []) = Inr r \<and> shape r = [2])"
proof -
  from ex_ih_pred [of "1 / 2"] obtain p
    where p: "ih_pred (ex_out (1 / 2)) = Inr p"
      "axes p = [(''step'', Labels [LInt 0, LInt 1, LInt 2])]"
    by auto
  have j: "join_index (Labels [LInt 0, LInt 1, LInt 2]) (Labels [LInt 0, LInt 1, LInt 5, LInt 6])
      = Inr (Labels [LInt 0, LInt 1], [0, 1], [0, 1])"
    by simp
  from calc_residual_series [OF ex_get_in_ds ex_run p ex_obs_long_axes, of "[]" "[]"]
  obtain r where r: "fst (calc_residual ex_xs ex_fitter [1 / 2] ex_obs_long []) = Inr r"
      "axes r = [(''step'', Labels [LInt 0, LInt 1])]"
    by (simp add: j)
  have g: "fst (get_out_ds ex_xs ex_fitter [1 / 2] []) = Inr (ex_out (1 / 2))"
    by (simp add: get_out_ds_def ex_get_in_ds ex_run)
  have "shape ex_obs_long = [4]" by (simp add: shape_def ex_obs_long_axes)
  moreover have "shape p = [3]" by (simp add: shape_def p(2))
  moreover have "shape r = [2]" by (simp add: shape_def r(2))
  ultimately show ?thesis using g p(1) r(1) by blast
qed

text \<open>
  \<^bold>\<open>C4\<close> (as amended; the statement of the specification fails, see the counterexample
  below). When no key of \<^verbatim>\<open>ls_kwargs\<close> repeats a keyword that \<^verbatim>\<open>fit\<close> writes itself,
  \<^verbatim>\<open>fit\<close> calls the optimizer exactly once: the objective is \<^verbatim>\<open>calc_residual\<close> of this
  fitter, the starting point is the stored guess and the only extra argument is the
  observed data (the call also carries \<^verbatim>\<open>xtol=1e-8\<close>, the stored verbosity and
  \<^verbatim>\<open>ls_kwargs\<close>). By default, that is unless \<^verbatim>\<open>ls_kwargs\<close> says otherwise, the
  stopping rule is the optimizer's own: the tolerance on the first-order optimality that
  the optimizer works with is its default \<^verbatim>\<open>1e-8\<close>, and no cap on the evaluations is
  set. What the optimizer returns or raises is what \<^verbatim>\<open>fit\<close> returns or raises, and a
  solution is stored in the attribute \<^verbatim>\<open>soln\<close>.
\<close>

theorem fit_invokes_optimizer_once:
  assumes "\<forall>k\<in>set (map fst (ls_kwargs self)).
             k \<notin> set [''fun'', ''x0'', ''xtol'', ''verbose'', ''args'']"
  shows "\<exists>res runs'.
     least_squares (fit_call xs self) (sim_runs w) = (res, runs') \<and>
     fit least_squares xs self w =
       (res, (case res of Inl e \<Rightarrow> self | Inr s \<Rightarrow> self\<lparr>soln := Some s\<rparr>),
        \<lparr>sim_runs = runs', opt_calls = opt_calls w @ [fit_call xs self]\<rparr>) \<and>
     ls_x0 (fit_call xs self) = guess self \<and>
     ls_args (fit_call xs self) = [data self] \<and>
     ls_xtol (fit_call xs self) = 1 / 10 ^ 8 \<and>
     ls_verbose (fit_call xs self) = verbosity self \<and>
     ls_extra (fit_call xs self) = ls_kwargs self \<and>
     (\<forall>x obs runs. ls_fun (fit_call xs self) x obs runs =
        (fst (calc_residual xs self x obs runs), snd (snd (calc_residual xs self x obs runs)))) \<and>
     (map_of (ls_kwargs self) ''gtol'' = None \<longrightarrow>
        ls_keyword (fit_call xs self) ''gtol'' = Some (PFloat (1 / 10 ^ 8))) \<and>
     (map_of (ls_kwargs self) ''max_nfev'' = None \<longrightarrow>
        ls_keyword (fit_call xs self) ''max_nfev'' = None)"
proof -
  from assms have no: "\<not> list_ex (\<lambda>k. k \<in> set [''fun'', ''x0'', ''xtol'', ''verbose'', ''args''])
      (map fst (ls_kwargs self))"
    unfolding list_ex_iff by blast
  obtain res runs' where l: "least_squares (fit_call xs self) (sim_runs w) = (res, runs')"
    by (cases "least_squares (fit_call xs self) (sim_runs w)") blast
  have "fit least_squares xs self w =
       (res, (case res of Inl e \<Rightarrow> self | Inr s \<Rightarrow> self\<lparr>soln := Some s\<rparr>),
        \<lparr>sim_runs = runs', opt_calls = opt_calls w @ [fit_call xs self]\<rparr>)"
    unfolding fit_def using no l by (cases res) simp_all
  with l show ?thesis
    by (intro exI conjI allI impI) (simp_all add: fit_call_fields ls_keyword_defaults)
qed

theorem fit_invokes_optimizer_once_witness:
  "fit ex_least_squares ex_xs ex_fitter \<lparr>sim_runs = [], opt_calls = []\<rparr> =
     (Inr \<lparr>sol_x = [1 / 2], sol_cost = 150, sol_status = 0\<rparr>,
      ex_fitter\<lparr>soln := Some \<lparr>sol_x = [1 / 2], sol_cost = 150, sol_status = 0\<rparr>\<rparr>,
      \<lparr>sim_runs = [ex_in_ds (1 / 2)], opt_calls = [fit_call ex_xs ex_fitter]\<rparr>) \<and>
   ls_keyword (fit_call ex_xs ex_fitter) ''gtol'' = Some (PFloat (1 / 10 ^ 8)) \<and>
   ls_keyword (fit_call ex_xs ex_fitter) ''max_nfev'' = None"
proof -
  have k: "\<forall>k\<in>set (map fst (ls_kwargs ex_fitter)).
             k \<notin> set [''fun'', ''x0'', ''xtol'', ''verbose'', ''args'']"
    by (simp add: ex_fitter_def)
  have d: "map_of (ls_kwargs ex_fitter) ''gtol'' = None"
    "map_of (ls_kwargs ex_fitter) ''max_nfev'' = None"
    by (simp_all add: ex_fitter_def)
  from fit_invokes_optimizer_once [OF k, of ex_least_squares ex_xs
      "\<lparr>sim_runs = [], opt_calls = []\<rparr>"] d
  obtain res runs' where
    l: "ex_least_squares (fit_call ex_xs ex_fitter) (sim_runs \<lparr>sim_runs = [], opt_calls = []\<rparr>)
          = (res, runs')"
    and f: "fit ex_least_squares ex_xs ex_fitter \<lparr>sim_runs = [], opt_calls = []\<rparr> =
       (res, (case res of Inl e \<Rightarrow> ex_fitter | Inr s \<Rightarrow> ex_fitter\<lparr>soln := Some s\<rparr>),
        \<lparr>sim_runs = runs', opt_calls = opt_calls \<lparr>sim_runs = [], opt_calls = []\<rparr>
            @ [fit_call ex_xs ex_fitter]\<rparr>)"
    and t: "ls_keyword (fit_call ex_xs ex_fitter) ''gtol'' = Some (PFloat (1 / 10 ^ 8))"
      "ls_keyword (fit_call ex_xs ex_fitter) ''max_nfev'' = None"
    by blast
  from l have "res = Inr \<lparr>sol_x = [1 / 2], sol_cost = 150, sol_status = 0\<rparr>"
    and "runs' = [ex_in_ds (1 / 2)]"
    by (simp_all add: ex_least_squares_call)
  with f t show ?thesis by simp
qed

text \<open>
  The counterexample to C4 as stated: with \<^verbatim>\<open>ls_kwargs = {'xtol': 1e-6}\<close> the call in
  \<^verbatim>\<open>fit\<close> has the keyword \<^verbatim>\<open>xtol\<close> twice and raises \<^verbatim>\<open>TypeError\<close>; the optimizer is not
  called, nothing is stored and no solution is returned.
\<close>

theorem fit_duplicate_keyword_counterexample:
  "fit ex_least_squares ex_xs (ex_fitter\<lparr>ls_kwargs := [(''xtol'', PFloat (1 / 10 ^ 6))]\<rparr>)
       \<lparr>sim_runs = [], opt_calls = []\<rparr> =
     (Inl TypeError, ex_fitter\<lparr>ls_kwargs := [(''xtol'', PFloat (1 / 10 ^ 6))]\<rparr>,
      \<lparr>sim_runs = [], opt_calls = []\<rparr>)"
  by (simp add: fit_def)

text \<open>
  \<^bold>\<open>C5.\<close> The result of \<^verbatim>\<open>calc_residual\<close> does not depend on the simulation runs made
  before it, so two calls with the same parameter vector, observed data and simulation
  return the same result. Nothing is cached: when the input dataset can be built (which
  needs a parameter vector of length at least 1), each of two calls in a row launches one
  simulation run on that input dataset, and the result of each is what comes out of that
  run: the error of the run when it fails, and otherwise the extraction from its output
  minus the observed data. When the input dataset cannot be built, that error is the
  result and no run is launched.
\<close>

theorem calc_residual_repeatable:
  "fst (calc_residual xs self dep_vars ih_actual runs) =
     fst (calc_residual xs self dep_vars ih_actual runs') \<and>
   (get_in_ds xs self dep_vars = Inr in_ds \<longrightarrow>
      (\<exists>r. calc_residual xs self dep_vars ih_actual runs = (r, self, runs @ [in_ds]) \<and>
           calc_residual xs self dep_vars ih_actual (runs @ [in_ds]) =
             (r, self, runs @ [in_ds, in_ds]) \<and>
           r = (case run xs in_ds (model self) [(''mask_and_scale'', False)] of
                  Inl e \<Rightarrow> Inl e
                | Inr out_ds \<Rightarrow>
                    (case ih_pred out_ds of
                       Inl e \<Rightarrow> Inl e
                     | Inr p \<Rightarrow> darray_sub p ih_actual)))) \<and>
   (get_in_ds xs self dep_vars = Inl e \<longrightarrow>
      calc_residual xs self dep_vars ih_actual runs = (Inl e, self, runs))"
proof (intro conjI impI)
  show "fst (calc_residual xs self dep_vars ih_actual runs) =
     fst (calc_residual xs self dep_vars ih_actual runs')"
    by (rule calc_residual_fst_runs)
next
  assume g: "get_in_ds xs self dep_vars = Inr in_ds"
  show "\<exists>r. calc_residual xs self dep_vars ih_actual runs = (r, self, runs @ [in_ds]) \<and>
           calc_residual xs self dep_vars ih_actual (runs @ [in_ds]) =
             (r, self, runs @ [in_ds, in_ds]) \<and>
           r = (case run xs in_ds (model self) [(''mask_and_scale'', False)] of
                  Inl e \<Rightarrow> Inl e
                | Inr out_ds \<Rightarrow>
                    (case ih_pred out_ds of
                       Inl e \<Rightarrow> Inl e
                     | Inr p \<Rightarrow> darray_sub p ih_actual))"
    using calc_residual_of_run [OF g, of ih_actual runs]
      calc_residual_of_run [OF g, of ih_actual "runs @ [in_ds]"]
    by simp
next
  assume "get_in_ds xs self dep_vars = Inl e"
  then show "calc_residual xs self dep_vars ih_actual runs = (Inl e, self, runs)"
    by (rule calc_residual_no_setup)
qed

theorem calc_residual_repeatable_witness:
  "(\<exists>r. calc_residual ex_xs ex_fitter [1 / 2] ex_obs [] = (Inr r, ex_fitter, [ex_in_ds (1 / 2)]) \<and>
       calc_residual ex_xs ex_fitter [1 / 2] ex_obs [ex_in_ds (1 / 2)] =
         (Inr r, ex_fitter, [ex_in_ds (1 / 2), ex_in_ds (1 / 2)])) \<and>
   calc_residual ex_xs_failing ex_fitter [1 / 2] ex_obs [] =
     (Inl (LibraryError ''run failed''), ex_fitter, [ex_in_ds (1 / 2)]) \<and>
   calc_residual ex_xs_failing ex_fitter [1 / 2] ex_obs [ex_in_ds (1 / 2)] =
     (Inl (LibraryError ''run failed''), ex_fitter, [ex_in_ds (1 / 2), ex_in_ds (1 / 2)]) \<and>
   calc_residual ex_xs ex_fitter [] ex_obs [] = (Inl IndexError, ex_fitter, [])"
proof (intro conjI)
  from calc_residual_repeatable [of ex_xs ex_fitter "[1 / 2]" ex_obs "[]" "[]" "ex_in_ds (1 / 2)"]
    ex_get_in_ds [of "1 / 2" "[]"]
  obtain r where r: "calc_residual ex_xs ex_fitter [1 / 2] ex_obs [] = (r, ex_fitter, [ex_in_ds (1 / 2)])"
      "calc_residual ex_xs ex_fitter [1 / 2] ex_obs [ex_in_ds (1 / 2)] =
         (r, ex_fitter, [ex_in_ds (1 / 2), ex_in_ds (1 / 2)])"
    by auto
  from ex_calc_residual [of "[]"] r(1) obtain r' where "r = Inr r'" by auto
  with r show "\<exists>r. calc_residual ex_xs ex_fitter [1 / 2] ex_obs [] =
        (Inr r, ex_fitter, [ex_in_ds (1 / 2)]) \<and>
       calc_residual ex_xs ex_fitter [1 / 2] ex_obs [ex_in_ds (1 / 2)] =
         (Inr r, ex_fitter, [ex_in_ds (1 / 2), ex_in_ds (1 / 2)])"
    by blast
next
  note inst = calc_residual_repeatable [of ex_xs_failing ex_fitter "[1 / 2]" ex_obs "[]" "[]"
      "ex_in_ds (1 / 2)", THEN conjunct2, THEN conjunct1, THEN mp, OF ex_failing_get_in_ds]
  from inst show "calc_residual ex_xs_failing ex_fitter [1 / 2] ex_obs [] =
     (Inl (LibraryError ''run failed''), ex_fitter, [ex_in_ds (1 / 2)])"
    by (auto simp: ex_failing_run)
  from inst show "calc_residual ex_xs_failing ex_fitter [1 / 2] ex_obs [ex_in_ds (1 / 2)] =
     (Inl (LibraryError ''run failed''), ex_fitter, [ex_in_ds (1 / 2), ex_in_ds (1 / 2)])"
    by (auto simp: ex_failing_run)
next
  have "get_in_ds ex_xs ex_fitter [] = Inl IndexError" by (simp add: get_in_ds_def)
  with calc_residual_repeatable [of ex_xs ex_fitter "[]" ex_obs "[]" "[]" _ IndexError]
  show "calc_residual ex_xs ex_fitter [] ex_obs [] = (Inl IndexError, ex_fitter, [])"
    by blast
qed

text \<open>
  \<^bold>\<open>C6\<close> (as amended; the statement of the specification fails, see the counterexample
  below). In a valid configuration whose observed series is on the time steps of the
  simulation, the residual is as long as the observed series. Valid means: the input
  dataset is built and the run succeeds, and the counts have exactly the axes
  \<^verbatim>\<open>step\<close>, \<^verbatim>\<open>compartment\<close>, \<^verbatim>\<open>age_group\<close>, \<^verbatim>\<open>risk_group\<close> and \<^verbatim>\<open>vertex\<close> with
  \<^verbatim>\<open>Ih\<close> once in the compartment index. On the time steps of the simulation means: the
  same time index, or unique labels on both sides with every observed label among those
  of the simulation, or a time axis without labels and equal sizes. Then, for every
  parameter vector for which this holds, \<^verbatim>\<open>calc_residual\<close> returns a residual whose
  shape is the shape of the observed series.
\<close>

theorem calc_residual_length:
  assumes "get_in_ds xs self dep_vars = Inr in_ds"
    and "run xs in_ds (model self) [(''mask_and_scale'', False)] = Inr out_ds"
    and "out_ds ''apply_counts_delta__counts'' = Some c"
    and "distinct (dims c)"
    and "set (dims c) = {''step'', ''compartment'', ''age_group'', ''risk_group'', ''vertex''}"
    and "map_of (axes c) ''compartment'' = Some (Labels ls)"
    and "positions ls (LStr ''Ih'') = [i]"
    and "map_of (axes c) ''step'' = Some ixp"
    and "axes ih_actual = [(''step'', ixo)]"
    and "on_time_steps ixp ixo"
  shows "\<exists>r. fst (calc_residual xs self dep_vars ih_actual runs) = Inr r \<and>
     shape r = shape ih_actual \<and> shape r = [index_size ixo]"
proof -
  from ih_pred_counts [of out_ds c, OF assms(3-7)] assms(8)
  obtain p where p: "ih_pred out_ds = Inr p" "axes p = [(''step'', ixp)]"
    by auto
  from join_index_on_time_steps [OF assms(10)] obtain j ls rs
    where j: "join_index ixp ixo = Inr (j, ls, rs)" "index_size j = index_size ixo"
    by blast
  from calc_residual_series [OF assms(1,2) p assms(9), of runs] j
  obtain r where "fst (calc_residual xs self dep_vars ih_actual runs) = Inr r"
      and "axes r = [(''step'', j)]"
    by simp
  with j(2) assms(9) show ?thesis by (simp add: shape_def)
qed

theorem calc_residual_length_witness:
  "\<exists>r. fst (calc_residual ex_xs ex_fitter [1 / 2] ex_obs []) = Inr r \<and>
     shape r = shape ex_obs \<and> shape r = [3]"
proof -
  have a: "on_time_steps (Labels [LInt 0, LInt 1, LInt 2]) (Labels [LInt 0, LInt 1, LInt 2])"
    by simp
  from calc_residual_length [where xs = ex_xs and self = ex_fitter and dep_vars = "[1 / 2]"
      and runs = "[]", OF ex_get_in_ds ex_run ex_counts_facts(1-4) positions_example
      ex_counts_facts(5) ex_obs_axes a]
  show ?thesis by (simp add: numeral_3_eq_3)
qed

text \<open>
  The counterexample to C6 as stated: the observed series has three time steps in
  increasing order, as the simulation output has, but labelled 5, 6, 7 where the output
  has 0, 1, 2; \<^verbatim>\<open>calc_residual\<close> returns a residual of length 0.
\<close>

theorem calc_residual_length_counterexample:
  "shape ex_obs_shifted = [3] \<and>
   (\<exists>p r. fst (get_out_ds ex_xs ex_fitter [1 / 2] []) = Inr (ex_out (1 / 2)) \<and>
      ih_pred (ex_out (1 / 2)) = Inr p \<and> shape p = [3] \<and>
      fst (calc_residual ex_xs ex_fitter [1 / 2] ex_obs_shifted []) = Inr r \<and> shape r = [0])"
proof -
  from ex_ih_pred [of "1 / 2"] obtain p
    where p: "ih_pred (ex_out (1 / 2)) = Inr p"
      "axes p = [(''step'', Labels [LInt 0, LInt 1, LInt 2])]"
    by auto
  have j: "join_index (Labels [LInt 0, LInt 1, LInt 2]) (Labels [LInt 5, LInt 6, LInt 7])
      = Inr (Labels [], [], [])"
    by simp
  from calc_residual_series [OF ex_get_in_ds ex_run p ex_obs_shifted_axes, of "[]" "[]"]
  obtain r where r: "fst (calc_residual ex_xs ex_fitter [1 / 2] ex_obs_shifted []) = Inr r"
      "axes r = [(''step'', Labels [])]"
    by (simp add: j)
  have g: "fst (get_out_ds ex_xs ex_fitter [1 / 2] []) = Inr (ex_out (1 / 2))"
    by (simp add: get_out_ds_def ex_get_in_ds ex_run)
  have "shape ex_obs_shifted = [3]" by (simp add: shape_def ex_obs_shifted_axes)
  moreover have "shape p = [3]" by (simp add: shape_def p(2))
  moreover have "shape r = [0]" by (simp add: shape_def r(2))
  ultimately show ?thesis using g p(1) r(1) by blast
qed

text \<open>
  \<^bold>\<open>C7.\<close> When the compartment index of the counts does not contain \<^verbatim>\<open>Ih\<close>,
  \<^verbatim>\<open>calc_residual\<close> raises \<^verbatim>\<open>KeyError\<close>: no residual is computed, the fitter is left as
  it was, and exactly one simulation run was launched (nothing is retried).
\<close>

theorem calc_residual_missing_compartment:
  assumes "get_in_ds xs self dep_vars = Inr in_ds"
    and "run xs in_ds (model self) [(''mask_and_scale'', False)] = Inr out_ds"
    and "out_ds ''apply_counts_delta__counts'' = Some c"
    and "distinct (dims c)"
    and "map_of (axes c) ''compartment'' = Some (Labels ls)"
    and "LStr ''Ih'' \<notin> set ls"
  shows "calc_residual xs self dep_vars ih_actual runs = (Inl KeyError, self, runs @ [in_ds])"
proof -
  have "ih_pred out_ds = Inl KeyError"
    by (simp add: ih_pred_def assms(3) loc_missing_label [OF assms(4-6)])
  then show ?thesis by (simp add: calc_residual_run [OF assms(1,2)])
qed

theorem calc_residual_missing_compartment_witness:
  "calc_residual (ex_xs_static ex_counts_no_ih) ex_fitter [1 / 2] ex_obs [] =
     (Inl KeyError, ex_fitter, [ex_in_ds (1 / 2)])"
proof -
  define D :: dataset
    where "D = (\<lambda>name. if name = ''apply_counts_delta__counts'' then Some ex_counts_no_ih else None)"
  have r: "run (ex_xs_static ex_counts_no_ih) (ex_in_ds (1 / 2)) (model ex_fitter)
        [(''mask_and_scale'', False)] = Inr D"
    unfolding D_def by (rule ex_static_run(2))
  have cD: "D ''apply_counts_delta__counts'' = Some ex_counts_no_ih"
    by (simp add: D_def)
  have n: "LStr ''Ih'' \<notin> set [LStr ''S'', LStr ''E'']" by simp
  from calc_residual_missing_compartment [where ih_actual = ex_obs and runs = "[]",
      OF ex_static_run(1) r cD ex_counts_no_ih_facts n]
  show ?thesis by simp
qed


text \<open>
  \<^bold>\<open>C8.\<close> The constructor stores its arguments (with the defaults of the class for the
  optional ones, and no solution yet) and leaves the world as it is: no simulation run and
  no optimizer call. A call of \<^verbatim>\<open>calc_residual\<close> leaves the fitter object as it found
  it.
\<close>

theorem init_stores_and_calc_residual_preserves:
  "init home d g m (Some dv) (Some sc) (Some vb) (Some kw) (Some fp) w =
     (\<lparr>data = d, guess = g, model = m, dep_var = dv, step_clock = sc, verbosity = vb,
       ls_kwargs = kw, config_fp = fp, soln = None\<rparr>, w) \<and>
   data (fst (init home d g m o1 o2 o3 o4 o5 w)) = d \<and>
   guess (fst (init home d g m o1 o2 o3 o4 o5 w)) = g \<and>
   model (fst (init home d g m o1 o2 o3 o4 o5 w)) = m \<and>
   snd (init home d g m o1 o2 o3 o4 o5 w) = w \<and>
   fst (snd (calc_residual xs self dep_vars ih_actual runs)) = self"
  by (simp add: init_def calc_residual_def get_out_ds_def split: sum.splits)

theorem init_stores_and_calc_residual_preserves_witness:
  "init ''/opt/episimlab'' ex_obs (1 / 2) slow_seir (Some ''beta'') (Some (Timestamps [0, 1, 2]))
      (Some 0) (Some []) (Some ''example_v1.yaml'')
      (\<lparr>sim_runs = [], opt_calls = []\<rparr> :: setup_args world) =
     (ex_fitter, \<lparr>sim_runs = [], opt_calls = []\<rparr>) \<and>
   config_fp (fst (init ''/opt/episimlab'' ex_obs (1 / 2) slow_seir None None None None None
      (\<lparr>sim_runs = [], opt_calls = []\<rparr> :: setup_args world))) =
     ''/opt/episimlab/tests/config/example_v1.yaml'' \<and>
   snd (init ''/opt/episimlab'' ex_obs (1 / 2) slow_seir None None None None None
      (\<lparr>sim_runs = [], opt_calls = []\<rparr> :: setup_args world)) =
     \<lparr>sim_runs = [], opt_calls = []\<rparr> \<and>
   fst (snd (calc_residual ex_xs ex_fitter [1 / 2] ex_obs [])) = ex_fitter"
proof -
  have c: "config_fp (fst (init ''/opt/episimlab'' ex_obs (1 / 2) slow_seir None None None None None
      (\<lparr>sim_runs = [], opt_calls = []\<rparr> :: setup_args world))) =
     ''/opt/episimlab/tests/config/example_v1.yaml''"
    by (simp add: init_def path_join_def)
  from init_stores_and_calc_residual_preserves [of "''/opt/episimlab''" ex_obs "1 / 2" slow_seir
      "''beta''" "Timestamps [0, 1, 2]" 0 "[]" "''example_v1.yaml''"
      "\<lparr>sim_runs = [], opt_calls = []\<rparr> :: setup_args world" None None None None None
      ex_xs ex_fitter "[1 / 2]" ex_obs "[]"] c
  show ?thesis by (simp add: ex_fitter_def)
qed


text \<open>
  \<^bold>\<open>C9.\<close> Of a parameter vector of length at least 1, \<^verbatim>\<open>calc_residual\<close> uses the first
  element only: two vectors with the same first element give the same result, the same
  fitter and the same simulation runs.
\<close>

theorem calc_residual_first_element:
  "calc_residual xs self (beta # rest) ih_actual runs =
   calc_residual xs self (beta # rest') ih_actual runs"
  by (simp add: calc_residual_def get_out_ds_def get_in_ds_def)

theorem calc_residual_first_element_witness:
  "calc_residual ex_xs ex_fitter [1 / 2, 7] ex_obs [] =
   calc_residual ex_xs ex_fitter [1 / 2, 3, 4] ex_obs []"
  by (rule calc_residual_first_element)


text \<open>
  \<^bold>\<open>C10.\<close> The attribute \<^verbatim>\<open>dep_var\<close> has no influence. Changing it changes neither the
  result of \<^verbatim>\<open>calc_residual\<close> nor the simulation runs; the input dataset is built with
  the parameter bound to \<^verbatim>\<open>foi__beta\<close> whatever \<^verbatim>\<open>dep_var\<close> is; and in a valid
  configuration the residual is computed from the cells of the compartment \<^verbatim>\<open>Ih\<close>
  (position \<open>i\<close> of the compartment index) whatever \<^verbatim>\<open>dep_var\<close> is.
\<close>

theorem dep_var_unused:
  "fst (calc_residual xs (self\<lparr>dep_var := d\<rparr>) dep_vars ih_actual runs) =
     fst (calc_residual xs self dep_vars ih_actual runs) \<and>
   snd (snd (calc_residual xs (self\<lparr>dep_var := d\<rparr>) dep_vars ih_actual runs)) =
     snd (snd (calc_residual xs self dep_vars ih_actual runs)) \<and>
   get_in_ds xs (self\<lparr>dep_var := d\<rparr>) (beta # rest) =
     create_setup xs
       \<lparr>sa_model = model self,
        sa_clocks = [(''step'', step_clock self)],
        sa_input_vars = [(''read_config__config_fp'', PStr (config_fp self)),
                         (''foi__beta'', PFloat beta)],
        sa_output_vars = [(''apply_counts_delta__counts'', ''step'')]\<rparr> \<and>
   (get_in_ds xs self dep_vars = Inr in_ds \<and>
    run xs in_ds (model self) [(''mask_and_scale'', False)] = Inr out_ds \<and>
    out_ds ''apply_counts_delta__counts'' = Some c \<and> distinct (dims c) \<and>
    set (dims c) = {''step'', ''compartment'', ''age_group'', ''risk_group'', ''vertex''} \<and>
    map_of (axes c) ''compartment'' = Some (Labels ls) \<and> positions ls (LStr ''Ih'') = [i] \<and>
    map_of (axes c) ''step'' = Some ix \<and> axes ih_actual = [(''step'', ix)]
    \<longrightarrow> (\<exists>r. fst (calc_residual xs (self\<lparr>dep_var := d\<rparr>) dep_vars ih_actual runs) = Inr r \<and>
           (\<forall>t<index_size ix. vals r [t] =
              (\<Sum>v<dim_size c ''vertex''. \<Sum>g<dim_size c ''risk_group''.
                 \<Sum>a<dim_size c ''age_group''. counts_cell c t i a g v) - vals ih_actual [t])))"
proof (intro conjI impI)
  show "get_in_ds xs (self\<lparr>dep_var := d\<rparr>) (beta # rest) =
     create_setup xs
       \<lparr>sa_model = model self,
        sa_clocks = [(''step'', step_clock self)],
        sa_input_vars = [(''read_config__config_fp'', PStr (config_fp self)),
                         (''foi__beta'', PFloat beta)],
        sa_output_vars = [(''apply_counts_delta__counts'', ''step'')]\<rparr>"
    by (simp add: get_in_ds_def)
next
  assume a: "get_in_ds xs self dep_vars = Inr in_ds \<and>
    run xs in_ds (model self) [(''mask_and_scale'', False)] = Inr out_ds \<and>
    out_ds ''apply_counts_delta__counts'' = Some c \<and> distinct (dims c) \<and>
    set (dims c) = {''step'', ''compartment'', ''age_group'', ''risk_group'', ''vertex''} \<and>
    map_of (axes c) ''compartment'' = Some (Labels ls) \<and> positions ls (LStr ''Ih'') = [i] \<and>
    map_of (axes c) ''step'' = Some ix \<and> axes ih_actual = [(''step'', ix)]"
  then obtain r where "calc_residual xs self dep_vars ih_actual runs = (Inr r, self, runs @ [in_ds])"
      and "\<forall>t<index_size ix. vals r [t] =
              (\<Sum>v<dim_size c ''vertex''. \<Sum>g<dim_size c ''risk_group''.
                 \<Sum>a<dim_size c ''age_group''. counts_cell c t i a g v) - vals ih_actual [t]"
    using calc_residual_valid [of xs self dep_vars in_ds out_ds c ls i ix ih_actual runs]
    by blast
  then show "\<exists>r. fst (calc_residual xs (self\<lparr>dep_var := d\<rparr>) dep_vars ih_actual runs) = Inr r \<and>
           (\<forall>t<index_size ix. vals r [t] =
              (\<Sum>v<dim_size c ''vertex''. \<Sum>g<dim_size c ''risk_group''.
                 \<Sum>a<dim_size c ''age_group''. counts_cell c t i a g v) - vals ih_actual [t])"
    by (simp add: calc_residual_dep_var(1))
qed (rule calc_residual_dep_var)+

theorem dep_var_unused_witness:
  "fst (calc_residual ex_xs (ex_fitter\<lparr>dep_var := ''gamma''\<rparr>) [1 / 2] ex_obs []) =
     fst (calc_residual ex_xs ex_fitter [1 / 2] ex_obs []) \<and>
   get_in_ds ex_xs (ex_fitter\<lparr>dep_var := ''gamma''\<rparr>) [1 / 2] = Inr (ex_in_ds (1 / 2)) \<and>
   (\<exists>r. fst (calc_residual ex_xs (ex_fitter\<lparr>dep_var := ''gamma''\<rparr>) [1 / 2] ex_obs []) = Inr r \<and>
        vals r [0] = 10 \<and> vals r [1] = - 10 \<and> vals r [2] = - 10)"
proof -
  note inst = dep_var_unused [where xs = ex_xs and self = ex_fitter and d = "''gamma''"
      and dep_vars = "[1 / 2]" and ih_actual = ex_obs and runs = "[]" and beta = "1 / 2"
      and rest = "[]" and in_ds = "ex_in_ds (1 / 2)" and out_ds = "ex_out (1 / 2)"
      and c = "ex_counts (1 / 2)" and ls = "[LStr ''S'', LStr ''Ih'']" and i = 1
      and ix = "Labels [LInt 0, LInt 1, LInt 2]"]
  have pre: "get_in_ds ex_xs ex_fitter [1 / 2] = Inr (ex_in_ds (1 / 2)) \<and>
    run ex_xs (ex_in_ds (1 / 2)) (model ex_fitter) [(''mask_and_scale'', False)] = Inr (ex_out (1 / 2)) \<and>
    ex_out (1 / 2) ''apply_counts_delta__counts'' = Some (ex_counts (1 / 2)) \<and>
    distinct (dims (ex_counts (1 / 2))) \<and>
    set (dims (ex_counts (1 / 2))) =
      {''step'', ''compartment'', ''age_group'', ''risk_group'', ''vertex''} \<and>
    map_of (axes (ex_counts (1 / 2))) ''compartment'' = Some (Labels [LStr ''S'', LStr ''Ih'']) \<and>
    positions [LStr ''S'', LStr ''Ih''] (LStr ''Ih'') = [1] \<and>
    map_of (axes (ex_counts (1 / 2))) ''step'' = Some (Labels [LInt 0, LInt 1, LInt 2]) \<and>
    axes ex_obs = [(''step'', Labels [LInt 0, LInt 1, LInt 2])]"
    by (intro conjI ex_get_in_ds ex_run ex_counts_facts positions_example ex_obs_axes)
  from inst have 1: "fst (calc_residual ex_xs (ex_fitter\<lparr>dep_var := ''gamma''\<rparr>) [1 / 2] ex_obs []) =
     fst (calc_residual ex_xs ex_fitter [1 / 2] ex_obs [])"
    by blast
  from inst have "get_in_ds ex_xs (ex_fitter\<lparr>dep_var := ''gamma''\<rparr>) [1 / 2] =
     create_setup ex_xs
       \<lparr>sa_model = model ex_fitter,
        sa_clocks = [(''step'', step_clock ex_fitter)],
        sa_input_vars = [(''read_config__config_fp'', PStr (config_fp ex_fitter)),
                         (''foi__beta'', PFloat (1 / 2))],
        sa_output_vars = [(''apply_counts_delta__counts'', ''step'')]\<rparr>"
    by blast
  then have 2: "get_in_ds ex_xs (ex_fitter\<lparr>dep_var := ''gamma''\<rparr>) [1 / 2] = Inr (ex_in_ds (1 / 2))"
    by (simp add: ex_xs_def ex_fitter_def ex_in_ds_def)
  from inst pre obtain r
    where r: "fst (calc_residual ex_xs (ex_fitter\<lparr>dep_var := ''gamma''\<rparr>) [1 / 2] ex_obs []) = Inr r"
      and v: "\<forall>t<index_size (Labels [LInt 0, LInt 1, LInt 2]). vals r [t] =
              (\<Sum>v<dim_size (ex_counts (1 / 2)) ''vertex''.
                 \<Sum>g<dim_size (ex_counts (1 / 2)) ''risk_group''.
                 \<Sum>a<dim_size (ex_counts (1 / 2)) ''age_group''.
                    counts_cell (ex_counts (1 / 2)) t 1 a g v) - vals ex_obs [t]"
    by blast
  have "vals r [0] = 10" "vals r [1] = - 10" "vals r [2] = - 10"
    using v by (simp_all add: ex_counts_sum ex_obs_vals)
  with 1 2 r show ?thesis by blast
qed

end
